theory Spec2Isabelle
  imports Complex_Main
begin

section \<open>JavaScript numbers\<close>

text \<open>
  The physics engine computes with JavaScript numbers. Finite values are modelled as
  \<^typ>\<open>real\<close> (exact arithmetic, no signed zero). Where an operation of the source
  can leave the finite numbers (a division by zero, the square root of a negative
  number, arithmetic on \<^verbatim>\<open>undefined\<close>), the value is a \<open>jsnum\<close>, and the cases
  are written out as JavaScript evaluates them. Rounding to a double is modelled
  where the control flow depends on it: in the two angle loops of \<open>calculateDrag\<close>.
\<close>

datatype jsnum = Num real | PosInf | NegInf | NaN

text \<open>\<open>x * k\<close> and \<open>x + k\<close> for a finite \<open>k\<close>.\<close>

fun jsmul :: "jsnum \<Rightarrow> real \<Rightarrow> jsnum" where
  "jsmul (Num a) k = Num (a * k)"
| "jsmul PosInf k = (if k > 0 then PosInf else if k < 0 then NegInf else NaN)"
| "jsmul NegInf k = (if k > 0 then NegInf else if k < 0 then PosInf else NaN)"
| "jsmul NaN k = NaN"

fun jsadd :: "jsnum \<Rightarrow> real \<Rightarrow> jsnum" where
  "jsadd (Num a) k = Num (a + k)"
| "jsadd PosInf k = PosInf"
| "jsadd NegInf k = NegInf"
| "jsadd NaN k = NaN"

text \<open>\<open>a / b\<close> for finite \<open>a\<close> and \<open>b\<close>; a zero divisor is taken as \<open>+0\<close>.\<close>

definition jsdiv :: "real \<Rightarrow> real \<Rightarrow> jsnum" where
  "jsdiv a b =
     (if b = 0 then (if a > 0 then PosInf else if a < 0 then NegInf else NaN)
      else Num (a / b))"

text \<open>\<open>Math.max(a, x)\<close> for a finite \<open>a\<close>.\<close>

fun jsmax :: "real \<Rightarrow> jsnum \<Rightarrow> jsnum" where
  "jsmax a (Num b) = Num (max a b)"
| "jsmax a PosInf = PosInf"
| "jsmax a NegInf = Num a"
| "jsmax a NaN = NaN"

text \<open>\<open>k / Math.sqrt(x)\<close> for a finite \<open>k\<close>.\<close>

fun jsdivsqrt :: "real \<Rightarrow> jsnum \<Rightarrow> jsnum" where
  "jsdivsqrt k (Num e) = (if e < 0 then NaN else jsdiv k (sqrt e))"
| "jsdivsqrt k PosInf = Num 0"
| "jsdivsqrt k NegInf = NaN"
| "jsdivsqrt k NaN = NaN"

text \<open>\<open>k / x\<close> for a finite \<open>k\<close>.\<close>

fun jsdivby :: "real \<Rightarrow> jsnum \<Rightarrow> jsnum" where
  "jsdivby k (Num e) = jsdiv k e"
| "jsdivby k PosInf = Num 0"
| "jsdivby k NegInf = Num 0"
| "jsdivby k NaN = NaN"

text \<open>\<open>Math.max(lo, Math.min(x, hi))\<close>: a NaN argument makes both NaN.\<close>

fun jsclamp :: "real \<Rightarrow> real \<Rightarrow> jsnum \<Rightarrow> jsnum" where
  "jsclamp lo hi (Num c) = Num (max lo (min c hi))"
| "jsclamp lo hi PosInf = Num (max lo hi)"
| "jsclamp lo hi NegInf = Num lo"
| "jsclamp lo hi NaN = NaN"

text \<open>\<open>x * y\<close> for two numbers, and \<open>x / k\<close> for a finite \<open>k\<close> (a zero \<open>k\<close> taken as \<open>+0\<close>).\<close>

fun jstimes :: "jsnum \<Rightarrow> jsnum \<Rightarrow> jsnum" where
  "jstimes (Num a) y = jsmul y a"
| "jstimes NaN y = NaN"
| "jstimes PosInf (Num b) = jsmul PosInf b"
| "jstimes PosInf PosInf = PosInf"
| "jstimes PosInf NegInf = NegInf"
| "jstimes PosInf NaN = NaN"
| "jstimes NegInf (Num b) = jsmul NegInf b"
| "jstimes NegInf PosInf = NegInf"
| "jstimes NegInf NegInf = PosInf"
| "jstimes NegInf NaN = NaN"

fun jsdivr :: "jsnum \<Rightarrow> real \<Rightarrow> jsnum" where
  "jsdivr (Num a) k = jsdiv a k"
| "jsdivr PosInf k = (if k < 0 then NegInf else PosInf)"
| "jsdivr NegInf k = (if k < 0 then PosInf else NegInf)"
| "jsdivr NaN k = NaN"

text \<open>\<open>x > k\<close> and \<open>x < k\<close> for a finite \<open>k\<close>: a comparison with NaN is false.\<close>

fun jsgt :: "jsnum \<Rightarrow> real \<Rightarrow> bool" where
  "jsgt (Num a) k = (a > k)"
| "jsgt PosInf k = True"
| "jsgt NegInf k = False"
| "jsgt NaN k = False"

fun jslt :: "jsnum \<Rightarrow> real \<Rightarrow> bool" where
  "jslt (Num a) k = (a < k)"
| "jslt PosInf k = False"
| "jslt NegInf k = True"
| "jslt NaN k = False"

section \<open>Shape classes and the geometry record\<close>

text \<open>
  \<open>shapeType\<close> is the string returned by \<open>classifyShape\<close>; the coefficient models
  treat every string other than the first three as the bluff default.
\<close>

datatype shapeType = Circular | Rectangular | Streamlined | Bluff

text \<open>
  The object returned by \<open>analyzeGeometry\<close>. Reading \<open>camber\<close> gives a finite
  number, NaN, or \<^verbatim>\<open>undefined\<close> when the object has no such property: the
  degenerate return carries \<open>maxCamber\<close> and no \<open>camber\<close>, the regular return
  carries \<open>camber\<close> and no \<open>maxCamber\<close>.
\<close>

datatype camberValue = Undefined | NotANumber | Finite real

record geometry =
  camber :: camberValue
  maxCamber :: "real option"
  thickness :: real
  isSymmetric :: bool
  teAngle :: real
  leRadius :: real

section \<open>Coefficient models\<close>

text \<open>
  The Reynolds number reaches the models as a \<open>jsnum\<close>: it is NaN when the request
  has no \<open>windSpeed\<close>.

  \<open>Math.max(aspectRatio, 1 / aspectRatio)\<close>, used by three branches.
\<close>

definition finenessRatio :: "real \<Rightarrow> jsnum" where
  "finenessRatio aspectRatio = jsmax aspectRatio (jsdiv 1 aspectRatio)"

text \<open>
  The circular branch. Its third test holds for a finite Reynolds number only
  (\<open>-Infinity\<close> passes the first test), so the sigmoid is computed on a real.
\<close>

definition dragCircular :: "jsnum \<Rightarrow> real \<Rightarrow> jsnum" where
  "dragCircular reynolds angleDegrees =
     (let cd = (if jslt reynolds 1 then jsmax 2.0 (jsdivby 24 reynolds)
                else if jslt reynolds 200000 then Num 1.17
                else if jslt reynolds 500000 then
                  (case reynolds of
                     Num re \<Rightarrow>
                       (let transitionRel = (re - 350000) / 50000;
                            sig = 1 / (1 + exp transitionRel)
                        in Num (0.3 + (1.2 - 0.3) * sig))
                   | _ \<Rightarrow> NaN)
                else jsadd (jsmul (jsdivr reynolds 10000000) 0.1) 0.35);
          angleRadCircular = \<bar>angleDegrees * pi / 180\<bar>
      in if angleRadCircular > 0.1 then jsmul cd (1.0 + 0.05 * sin angleRadCircular)
         else cd)"

definition dragRectangular :: "jsnum \<Rightarrow> real \<Rightarrow> jsnum" where
  "dragRectangular reynolds aspectRatio =
     (let effectiveAR = finenessRatio aspectRatio;
          cd = jsdivsqrt 2.0 effectiveAR;
          cd = jsclamp 1.0 2.1 cd
      in if jslt reynolds 10000 then jsmul cd 1.1 else cd)"

definition dragStreamlined :: "real \<Rightarrow> real \<Rightarrow> geometry option \<Rightarrow> jsnum" where
  "dragStreamlined aspectRatio angleDegrees geom =
     (let isSym = (case geom of None \<Rightarrow> False | Some g \<Rightarrow> isSymmetric g);
          finenessRatioStreamlined = finenessRatio aspectRatio;
          cd = jsadd (jsdivsqrt 0.3 finenessRatioStreamlined) 0.05;
          cd = (if isSym \<and> \<bar>angleDegrees\<bar> < 5 then jsmul cd 0.8 else cd);
          cd = (case geom of
                  None \<Rightarrow> cd
                | Some g \<Rightarrow>
                    if teAngle g > 20
                    then (let bluntnessFactor = (teAngle g - 20) / 70
                          in jsadd cd (0.1 * bluntnessFactor))
                    else cd);
          angleRadStreamlined = \<bar>angleDegrees * pi / 180\<bar>
      in if angleRadStreamlined > pi / 12
         then (let separationFactor = 1.0 + 1.2 * (sin angleRadStreamlined)\<^sup>2
               in jsmul cd separationFactor)
         else cd)"

definition dragBluff :: "jsnum \<Rightarrow> real \<Rightarrow> real \<Rightarrow> jsnum" where
  "dragBluff reynolds aspectRatio solidity =
     (let finenessRatioBluff = finenessRatio aspectRatio;
          cd = jsadd (jsdivby 0.5 finenessRatioBluff) 1.0;
          cd = jsmul cd (0.85 + 0.15 * solidity)
      in if jslt reynolds 10000 then jsmul cd 1.05 else cd)"

text \<open>
  \<open>calculateDragCoefficient(shapeType, reynolds, aspectRatio, solidity, angleDegrees,
  geometry)\<close>. An absent \<open>geometry\<close> argument is \<open>None\<close>: the source then destructures
  the empty object, so \<open>isSymmetric\<close> is falsy and \<open>teAngle > 20\<close> is false.
\<close>

definition calculateDragCoefficient ::
  "shapeType \<Rightarrow> jsnum \<Rightarrow> real \<Rightarrow> real \<Rightarrow> real \<Rightarrow> geometry option \<Rightarrow> jsnum" where
  "calculateDragCoefficient shapeType reynolds aspectRatio solidity angleDegrees geom =
     jsclamp 0.01 2.5
       (case shapeType of
          Circular \<Rightarrow> dragCircular reynolds angleDegrees
        | Rectangular \<Rightarrow> dragRectangular reynolds aspectRatio
        | Streamlined \<Rightarrow> dragStreamlined aspectRatio angleDegrees geom
        | Bluff \<Rightarrow> dragBluff reynolds aspectRatio solidity)"

text \<open>The streamlined branch of \<open>calculateLiftCoefficient\<close> (the airfoil model).\<close>

definition liftStreamlined ::
  "real \<Rightarrow> real \<Rightarrow> camberValue \<Rightarrow> real \<Rightarrow> bool \<Rightarrow> real \<Rightarrow> jsnum" where
  "liftStreamlined aspectRatio angleDegrees camb thick isSym te =
     (case (if isSym then Some 0
            else (case camb of Finite c \<Rightarrow> Some (- 100 * c) | _ \<Rightarrow> None)) of
        None \<Rightarrow> NaN
      | Some alphaL0 \<Rightarrow>
         (let effectiveAngle = angleDegrees - alphaL0;
              effectiveAngleRad = effectiveAngle * pi / 180;
              kuttaFactor = (if te > 20 then max 0.5 (1.0 - (te - 20) / 100) else 1.0);
              arCorrection = jsdiv aspectRatio (aspectRatio + 2);
              liftSlope = jsmul (jsmul arCorrection (0.1 * 0.9)) kuttaFactor;
              stallAngle = 12 + (thick * 20);
              preStallLift = jsmul liftSlope effectiveAngle;
              separatedLift = 1.0 * sin (2 * effectiveAngleRad)
          in case jsdiv \<bar>effectiveAngle\<bar> stallAngle of
               Num x \<Rightarrow>
                 if x < 0.8 then preStallLift
                 else if x < 1.5 then
                   (let t = (x - 0.8) / (1.5 - 0.8);
                        blend = (1 + cos (pi * t)) / 2;
                        peakBoost = 0.1 * sin (pi * t)
                    in jsadd (jsadd (jsmul preStallLift blend) (separatedLift * (1 - blend)))
                         peakBoost)
                 else Num separatedLift
             | NegInf \<Rightarrow> preStallLift
             | PosInf \<Rightarrow> Num separatedLift
             | NaN \<Rightarrow> Num separatedLift))"

text \<open>
  The closing Reynolds-number correction of \<open>calculateLiftCoefficient\<close>. Its test
  holds for a finite Reynolds number and for \<open>-Infinity\<close>, where \<open>Math.max(1, reynolds)\<close>
  is 1.
\<close>

definition reynoldsCorrection :: "jsnum \<Rightarrow> jsnum \<Rightarrow> jsnum" where
  "reynoldsCorrection reynolds cl =
     (if jslt reynolds 100000
      then (let factor = 0.4 + 0.6 * (log 10 (case reynolds of Num re \<Rightarrow> max 1 re | _ \<Rightarrow> 1)
                                        / 5.0)
            in jsmul cl (min 1.0 (max 0.1 factor)))
      else cl)"

text \<open>
  \<open>calculateLiftCoefficient(shapeType, reynolds, aspectRatio, angleDegrees, solidity,
  geometry)\<close>. Without a geometry the source takes camber 0, thickness 0.12, not
  symmetric, trailing-edge angle 30. An undefined camber becomes NaN in arithmetic,
  and a comparison with NaN is false.
\<close>

definition calculateLiftCoefficient ::
  "shapeType \<Rightarrow> jsnum \<Rightarrow> real \<Rightarrow> real \<Rightarrow> real \<Rightarrow> geometry option \<Rightarrow> jsnum" where
  "calculateLiftCoefficient shapeType reynolds aspectRatio angleDegrees solidity geom =
     (let angleRad = angleDegrees * pi / 180;
          camb = (case geom of Some g \<Rightarrow> camber g | None \<Rightarrow> Finite 0);
          thick = (case geom of Some g \<Rightarrow> thickness g | None \<Rightarrow> 0.12);
          isSym = (case geom of Some g \<Rightarrow> isSymmetric g | None \<Rightarrow> False);
          te = (case geom of Some g \<Rightarrow> teAngle g | None \<Rightarrow> 30);
          canLift = (shapeType = Streamlined \<or> aspectRatio > 2.0 \<or> aspectRatio < 0.5
                     \<or> (case camb of Finite c \<Rightarrow> \<bar>c\<bar> > 0.001 | _ \<Rightarrow> False))
      in if \<not> canLift \<and> \<bar>angleDegrees\<bar> < 10 then Num 0
         else if isSym \<and> \<bar>angleDegrees\<bar> < 0.5 then Num 0
         else reynoldsCorrection reynolds
           (case shapeType of
              Circular \<Rightarrow>
                (if \<bar>angleDegrees\<bar> > 5 then Num (0.3 * sin (2 * angleRad)) else Num 0)
            | Streamlined \<Rightarrow> liftStreamlined aspectRatio angleDegrees camb thick isSym te
            | Rectangular \<Rightarrow>
                (let cl = (if \<bar>angleDegrees\<bar> < 25 then 1.1 * sin (2 * angleRad)
                           else 1.0 * sin angleRad)
                 in if camb \<noteq> Finite 0 \<and> \<not> isSym
                    then (case camb of Finite c \<Rightarrow> Num (cl + c * 2.0) | _ \<Rightarrow> NaN)
                    else Num cl)
            | Bluff \<Rightarrow>
                (let cl = 0.5 * sin (2 * angleRad)
                 in if solidity < 0.5 then Num (cl * 0.5) else Num cl)))"

text \<open>\<open>calculateStrouhal(shapeType, reynolds)\<close>.\<close>

definition calculateStrouhal :: "shapeType \<Rightarrow> jsnum \<Rightarrow> real" where
  "calculateStrouhal shapeType reynolds =
     (case shapeType of
        Circular \<Rightarrow> (if jslt reynolds 100 then 0.1 else 0.2)
      | Rectangular \<Rightarrow> 0.15
      | Streamlined \<Rightarrow> 0.1
      | Bluff \<Rightarrow> 0.18)"

section \<open>Geometry utilities\<close>

type_synonym point = "real \<times> real"

definition AIR_DYNAMIC_VISCOSITY :: real where
  "AIR_DYNAMIC_VISCOSITY = 181 / 10000000"

definition PIXELS_PER_METER :: real where
  "PIXELS_PER_METER = 100"

definition getCentroid :: "point list \<Rightarrow> point" where
  "getCentroid points =
     (let n = length points
      in if n = 0 then (0, 0)
         else (let (x, y) = fold (\<lambda>p (x, y). (x + fst p, y + snd p)) points (0, 0)
               in (x / real n, y / real n)))"

definition rotatePoints :: "point list \<Rightarrow> real \<Rightarrow> point list" where
  "rotatePoints points angleDegrees =
     (let angleRad = (angleDegrees * pi) / 180;
          cosKey = cos angleRad;
          sinKey = sin angleRad;
          centroid = getCentroid points
      in map (\<lambda>p.
           (let dx = fst p - fst centroid;
                dy = snd p - snd centroid
            in (fst centroid + (dx * cosKey - dy * sinKey),
                snd centroid + (dx * sinKey + dy * cosKey)))) points)"

record bounds =
  width :: real
  height :: real
  minX :: real
  maxX :: real
  minY :: real
  maxY :: real

text \<open>
  The scan of \<open>getBoundingBox\<close>, on the running \<open>(minX, maxX, minY, maxY)\<close>
  (written \<open>(loX, hiX, loY, hiY)\<close>, the record fields having the source's names). The
  source starts from \<open>(Infinity, -Infinity, Infinity, -Infinity)\<close>, which the first
  point always replaces by its own coordinates; the scan here starts after that step.
  For the empty list the source returns a box of infinite sides, which is \<open>None\<close>.
\<close>

fun boxScan :: "point list \<Rightarrow> real \<times> real \<times> real \<times> real \<Rightarrow> real \<times> real \<times> real \<times> real" where
  "boxScan [] acc = acc"
| "boxScan (p # ps) (loX, hiX, loY, hiY) =
     boxScan ps
       (if fst p < loX then fst p else loX,
        if fst p > hiX then fst p else hiX,
        if snd p < loY then snd p else loY,
        if snd p > hiY then snd p else hiY)"

definition getBoundingBox :: "point list \<Rightarrow> bounds option" where
  "getBoundingBox points =
     (case points of
        [] \<Rightarrow> None
      | p # ps \<Rightarrow>
          (case boxScan ps (fst p, fst p, snd p, snd p) of
             (loX, hiX, loY, hiY) \<Rightarrow>
               Some \<lparr>width = hiX - loX, height = hiY - loY,
                     minX = loX, maxX = hiX, minY = loY, maxY = hiY\<rparr>))"

text \<open>The signed sum of the shoelace loop, and \<open>calculatePolygonArea\<close>.\<close>

definition shoelaceSum :: "point list \<Rightarrow> real" where
  "shoelaceSum points =
     (let n = length points
      in (\<Sum>i\<leftarrow>[0..<n].
            (let j = (i + 1) mod n
             in fst (points ! i) * snd (points ! j) - fst (points ! j) * snd (points ! i))))"

definition calculatePolygonArea :: "point list \<Rightarrow> real" where
  "calculatePolygonArea points = \<bar>shoelaceSum points\<bar> / 2"

text \<open>The summand of the shoelace loop for two consecutive vertices.\<close>

definition cross :: "point \<Rightarrow> point \<Rightarrow> real" where
  "cross p q = fst p * snd q - fst q * snd p"

text \<open>\<open>calculateReynolds\<close>; the velocity is NaN when the request has no \<open>windSpeed\<close>.\<close>

definition calculateReynolds :: "jsnum \<Rightarrow> real \<Rightarrow> real \<Rightarrow> real \<Rightarrow> jsnum" where
  "calculateReynolds velocity characteristicLength density dynamicViscosity =
     jsdivr (jsmul (jsmul velocity density) characteristicLength) dynamicViscosity"

section \<open>Shape classifier\<close>

definition classifyShape :: "point list \<Rightarrow> bounds \<Rightarrow> real \<Rightarrow> shapeType" where
  "classifyShape points b solidity =
     (let aspectRatio = jsdiv (width b) (height b);
          isCircular = (solidity > 0.70 \<and> solidity < 0.82
                        \<and> jsgt aspectRatio 0.8 \<and> jslt aspectRatio 1.25);
          isRectangular = (solidity > 0.85 \<and> length points = 4);
          isStreamlined = (jsgt aspectRatio 3.0
                           \<or> (jslt aspectRatio 0.33 \<and> jsgt aspectRatio 0))
      in if isCircular then Circular
         else if isRectangular then Rectangular
         else if isStreamlined then Streamlined
         else Bluff)"

section \<open>Geometry analyzer\<close>

datatype jserror = TypeError

text \<open>
  The search loop for the leading and trailing edge: the first point whose
  \<open>x\<close> is nearest to the target. The running minimum starts at \<open>Infinity\<close>, so the
  first point is always taken; the scan here starts after that step.
\<close>

fun nearestScan :: "real \<Rightarrow> point list \<Rightarrow> real \<times> point \<Rightarrow> real \<times> point" where
  "nearestScan t [] acc = acc"
| "nearestScan t (p # ps) (minDist, best) =
     (let d = \<bar>fst p - t\<bar>
      in nearestScan t ps (if d < minDist then (d, p) else (minDist, best)))"

definition nearestPoint :: "real \<Rightarrow> point \<Rightarrow> point list \<Rightarrow> point" where
  "nearestPoint t p ps = snd (nearestScan t ps (\<bar>fst p - t\<bar>, p))"

text \<open>
  The projection loop, on the running
  \<open>(upperArea, lowerArea, sumY, maxUpper, maxLower)\<close>. In the lower branch the source
  stores \<open>dist\<close> itself, not its absolute value, into \<open>maxLower\<close>.
\<close>

definition projectStep ::
  "point \<Rightarrow> real \<Rightarrow> real \<Rightarrow> point \<Rightarrow> real \<times> real \<times> real \<times> real \<times> real
     \<Rightarrow> real \<times> real \<times> real \<times> real \<times> real" where
  "projectStep pLE nx ny p acc =
     (case acc of (upperArea, lowerArea, sumY, maxUpper, maxLower) \<Rightarrow>
        (let px = fst p - fst pLE;
             py = snd p - snd pLE;
             dist = px * nx + py * ny
         in if dist > 0
            then (upperArea + dist, lowerArea, sumY + dist,
                  (if dist > maxUpper then dist else maxUpper), maxLower)
            else (upperArea, lowerArea + \<bar>dist\<bar>, sumY + dist,
                  maxUpper, (if \<bar>dist\<bar> > maxLower then dist else maxLower))))"

text \<open>
  \<open>points.indexOf(p)\<close> for a \<open>p\<close> taken from \<open>points\<close>. The source compares object
  identity; the edge points are first occurrences of their value, so the first
  index of an equal value is the same index.
\<close>

fun indexOf :: "point list \<Rightarrow> point \<Rightarrow> nat" where
  "indexOf [] p = 0"
| "indexOf (q # qs) p = (if q = p then 0 else Suc (indexOf qs p))"

text \<open>\<open>Math.atan2(y, x)\<close> on finite arguments, zero taken as \<open>+0\<close>.\<close>

definition atan2 :: "real \<Rightarrow> real \<Rightarrow> real" where
  "atan2 y x =
     (if x > 0 then arctan (y / x)
      else if x < 0 then (if y \<ge> 0 then arctan (y / x) + pi else arctan (y / x) - pi)
      else if y > 0 then pi / 2
      else if y < 0 then - (pi / 2)
      else 0)"

text \<open>
  \<open>analyzeGeometry(points, bounds)\<close>. With a nonzero chord and no point, the source
  reads index 1 of \<^verbatim>\<open>undefined\<close> and throws. When the two edge points coincide
  (possible only for bounds that are not those of \<open>points\<close>), the chord direction is
  \<open>0 / 0\<close> and every projected distance is NaN: the camber is NaN, both area sums fail
  the symmetry test.
\<close>

definition analyzeGeometry :: "point list \<Rightarrow> bounds \<Rightarrow> jserror + geometry" where
  "analyzeGeometry points b =
     (let chordLength = maxX b - minX b
      in if chordLength = 0
         then Inr \<lparr>camber = Undefined, maxCamber = Some 0, thickness = 0,
                   isSymmetric = True, teAngle = 180, leRadius = 0\<rparr>
         else (case points of
            [] \<Rightarrow> Inl TypeError
          | p0 # rest \<Rightarrow>
             (let pLE = nearestPoint (minX b) p0 rest;
                  pTE = nearestPoint (maxX b) p0 rest;
                  dy = snd pTE - snd pLE;
                  dx = fst pTE - fst pLE;
                  len = sqrt (dx * dx + dy * dy);
                  thicknessRatio = height b / chordLength;
                  n = length points;
                  pTEIndex = indexOf points pTE;
                  prev = points ! ((pTEIndex + n - 1) mod n);
                  next = points ! ((pTEIndex + 1) mod n);
                  v1x = fst prev - fst pTE;
                  v1y = snd prev - snd pTE;
                  v2x = fst next - fst pTE;
                  v2y = snd next - snd pTE;
                  angle1 = atan2 v1y v1x;
                  angle2 = atan2 v2y v2x;
                  teAngleDeg = \<bar>(angle1 - angle2) * 180 / pi\<bar>;
                  teAngleDeg = (if teAngleDeg > 180 then 360 - teAngleDeg else teAngleDeg);
                  pLEIndex = indexOf points pLE;
                  prevLE = points ! ((pLEIndex + n - 1) mod n);
                  nextLE = points ! ((pLEIndex + 1) mod n);
                  leWidth = sqrt ((fst prevLE - fst nextLE)\<^sup>2 + (snd prevLE - snd nextLE)\<^sup>2);
                  leRad = leWidth / (2 * chordLength)
              in if len = 0
                 then Inr \<lparr>camber = NotANumber, maxCamber = None, thickness = thicknessRatio,
                           isSymmetric = False, teAngle = teAngleDeg, leRadius = leRad\<rparr>
                 else
                  (let ux = dx / len;
                       uy = dy / len;
                       nx = - uy;
                       ny = ux
                   in case fold (projectStep pLE nx ny) points (0, 0, 0, 0, 0) of
                        (upperArea, lowerArea, sumY, maxUpper, maxLower) \<Rightarrow>
                     (let avgDeviation = sumY / real n;
                          normalizedCamber = - avgDeviation / chordLength;
                          areaRatio = (if upperArea > 0 \<and> lowerArea > 0
                                       then min upperArea lowerArea / max upperArea lowerArea
                                       else 0);
                          maxThickRatio = (if maxUpper > 0 \<and> maxLower > 0
                                           then min maxUpper maxLower / max maxUpper maxLower
                                           else 0);
                          isSym = (areaRatio > 0.85 \<and> maxThickRatio > 0.85
                                   \<and> \<bar>normalizedCamber\<bar> < 0.02)
                      in Inr \<lparr>camber = Finite normalizedCamber, maxCamber = None,
                               thickness = thicknessRatio, isSymmetric = isSym,
                               teAngle = teAngleDeg, leRadius = leRad\<rparr>)))))"

section \<open>Aerodynamic solver\<close>

text \<open>
  The flow parameters of a request. \<open>angle\<close> and \<open>airDensity\<close> are \<open>None\<close> when the
  property is absent, null or NaN: besides \<open>0\<close>, the values that the source's \<open>||\<close>
  replaces by its default. \<open>windSpeed\<close> is \<open>None\<close> when the property is absent or NaN:
  the first division then gives NaN (a null \<open>windSpeed\<close> divides as \<open>0\<close>, which is
  \<open>Some 0\<close>). Infinite parameters are not modelled.
\<close>

record params =
  windSpeed :: "real option"
  angle :: "real option"
  airDensity :: "real option"

subsection \<open>Rounding to a double\<close>

text \<open>
  The nearest double of a real: 53 significant bits, ties to the even significand,
  exponents from -1022 (below that the spacing stays \<open>2\<^sup>-\<^sup>1\<^sup>0\<^sup>7\<^sup>4\<close>). Overflow to
  \<open>Infinity\<close> is not modelled; the angle loops only move a value toward zero.
\<close>

definition roundEven :: "real \<Rightarrow> int" where
  "roundEven y =
     (let f = \<lfloor>y\<rfloor>; d = y - of_int f
      in if d < 1 / 2 then f
         else if d > 1 / 2 then f + 1
         else if even f then f else f + 1)"

definition ulp :: "real \<Rightarrow> real" where
  "ulp x = 2 powr of_int (max \<lfloor>log 2 \<bar>x\<bar>\<rfloor> (- 1022) - 52)"

definition toDouble :: "real \<Rightarrow> real" where
  "toDouble x = (if x = 0 then 0 else of_int (roundEven (x / ulp x)) * ulp x)"

text \<open>
  The two normalisation loops of \<open>calculateDrag\<close>, one after the other:
  \<open>angleDegrees -= 360\<close> and \<open>angleDegrees += 360\<close> round their result to a double.
  A loop that never ends has the value \<open>None\<close>.
\<close>

partial_function (option) normalizeDown :: "real \<Rightarrow> real option" where
  "normalizeDown a = (if a > 180 then normalizeDown (toDouble (a - 360)) else Some a)"

partial_function (option) normalizeUp :: "real \<Rightarrow> real option" where
  "normalizeUp a = (if a < - 180 then normalizeUp (toDouble (a + 360)) else Some a)"

definition normalizeAngle :: "real \<Rightarrow> real option" where
  "normalizeAngle a = (case normalizeDown a of None \<Rightarrow> None | Some b \<Rightarrow> normalizeUp b)"

text \<open>
  The angles on which both loops are exact: the doubles of magnitude below \<open>2\<^sup>5\<^sup>6\<close>,
  that is \<open>m \<sqdot> 2\<^sup>j\<close> with \<open>\<bar>m\<bar> < 2\<^sup>5\<^sup>3\<close> and \<open>j\<close> from -1074 to 3. \<open>onGrid j\<close> is the
  invariant of the loops on such an angle: a multiple of \<open>2\<^sup>j\<close> within 53 bits.
\<close>

definition exactAngle :: "real \<Rightarrow> bool" where
  "exactAngle a \<longleftrightarrow>
     (\<exists>(m::int) (j::int). a = of_int m * 2 powr of_int j \<and> \<bar>m\<bar> < 2 ^ 53
        \<and> - 1074 \<le> j \<and> j \<le> 3)"

definition onGrid :: "int \<Rightarrow> real \<Rightarrow> bool" where
  "onGrid j a \<longleftrightarrow>
     - 1074 \<le> j \<and> j \<le> 3 \<and> (\<exists>m::int. a = of_int m * 2 powr of_int j)
     \<and> \<bar>a\<bar> < 2 powr (of_int j + 53)"

text \<open>
  \<open>parseFloat(x.toFixed(d))\<close>: the nearest multiple of \<open>10\<^sup>-\<^sup>d\<close>, a tie going away
  from zero; from \<open>10\<^sup>2\<^sup>1\<close> on \<open>toFixed\<close> prints the number itself. The debug
  strings are modelled by the number they print.
\<close>

definition toFixed :: "nat \<Rightarrow> real \<Rightarrow> real" where
  "toFixed d x =
     (if \<bar>x\<bar> \<ge> 10 ^ 21 then x
      else if x < 0 then - (of_int \<lfloor>(- x) * 10 ^ d + 1 / 2\<rfloor> / 10 ^ d)
      else of_int \<lfloor>x * 10 ^ d + 1 / 2\<rfloor> / 10 ^ d)"

fun jsToFixed :: "nat \<Rightarrow> jsnum \<Rightarrow> jsnum" where
  "jsToFixed d (Num x) = Num (toFixed d x)"
| "jsToFixed d PosInf = PosInf"
| "jsToFixed d NegInf = NegInf"
| "jsToFixed d NaN = NaN"

record result =
  cd :: jsnum
  cl :: jsnum
  dragForce :: jsnum
  liftForce :: jsnum
  area :: real
  referenceArea :: real
  reynolds :: jsnum
  shapeType :: shapeType
  vortexFrequency :: jsnum
  strouhal :: real
  pressureDrag :: jsnum
  frictionDrag :: jsnum
  debug_velocityMs :: jsnum
  debug_widthM :: real
  debug_heightM :: real
  debug_characteristicLength :: real
  debug_aspectRatio :: real
  debug_solidity :: real
  debug_camber :: jsnum
  debug_thickness :: real
  debug_alphaL0 :: jsnum

text \<open>
  \<open>calculateDrag(points, params)\<close>. The result is \<open>None\<close> when an angle loop never
  ends. The drag model is called with five arguments, so its \<open>geometry\<close> parameter is
  absent. For an empty \<open>points\<close> the source throws inside \<open>analyzeGeometry\<close>, whatever
  the earlier steps computed from the infinite box. The result object is built
  last; \<open>geometry.camber.toFixed(4)\<close> throws there when the geometry has no \<open>camber\<close>.
\<close>

definition calculateDrag :: "point list \<Rightarrow> params \<Rightarrow> (jserror + result) option" where
  "calculateDrag points prm =
     (let velocityMs = (case windSpeed prm of None \<Rightarrow> NaN | Some velocityKmh \<Rightarrow> Num (velocityKmh / 3.6));
          rho = (case airDensity prm of
                   None \<Rightarrow> 1.225
                 | Some d \<Rightarrow> if d = 0 then 1.225 else d)
      in case normalizeAngle (case angle prm of None \<Rightarrow> 0 | Some a \<Rightarrow> a) of
        None \<Rightarrow> None
      | Some angleDegrees \<Rightarrow> Some
     (let mu = AIR_DYNAMIC_VISCOSITY;
          rotatedPoints = rotatePoints points angleDegrees
      in case getBoundingBox rotatedPoints of
           None \<Rightarrow> Inl TypeError
         | Some bnds \<Rightarrow>
           (let heightM = height bnds / PIXELS_PER_METER;
                widthM = width bnds / PIXELS_PER_METER;
                frontalArea = heightM * 1.0;
                refArea = max heightM widthM * 1.0;
                polygonArea = calculatePolygonArea points;
                boxArea = width bnds * height bnds;
                solidity = (if boxArea > 0 then polygonArea / boxArea else 1.0);
                aspectRatio = (if height bnds > 0 then width bnds / height bnds else 1.0);
                shape = classifyShape points bnds solidity;
                characteristicLength =
                  (if shape = Circular then width bnds / PIXELS_PER_METER
                   else if shape = Streamlined then width bnds / PIXELS_PER_METER
                   else sqrt (polygonArea / (PIXELS_PER_METER * PIXELS_PER_METER)));
                re = calculateReynolds velocityMs characteristicLength rho mu
            in case getBoundingBox points of
                 None \<Rightarrow> Inl TypeError
               | Some ownBounds \<Rightarrow>
                 (case analyzeGeometry points ownBounds of
                    Inl e \<Rightarrow> Inl e
                  | Inr geom \<Rightarrow>
                    (let dragCoeff = calculateDragCoefficient shape re aspectRatio solidity
                                       angleDegrees None;
                         liftCoeff = calculateLiftCoefficient shape re aspectRatio
                                       angleDegrees solidity (Some geom);
                         dragF = jstimes (jsmul (jstimes (jsmul velocityMs (0.5 * rho)) velocityMs)
                                           frontalArea) dragCoeff;
                         liftF = jstimes (jsmul (jstimes (jsmul velocityMs (0.5 * rho)) velocityMs)
                                           refArea) liftCoeff;
                         st = calculateStrouhal shape re;
                         vortexFreq = (if characteristicLength > 0
                                       then jsdivr (jsmul velocityMs st) characteristicLength
                                       else Num 0);
                         pressureDragRatio = (if shape = Streamlined then 0.6
                                              else if shape = Circular then 0.85
                                              else 0.9);
                         pressureD = jsmul dragF pressureDragRatio;
                         frictionD = jsmul dragF (1 - pressureDragRatio)
                     in case (case camber geom of
                                Undefined \<Rightarrow> None
                              | NotANumber \<Rightarrow> Some NaN
                              | Finite c \<Rightarrow> Some (Num c)) of
                          None \<Rightarrow> Inl TypeError
                        | Some camb \<Rightarrow>
                            Inr \<lparr>cd = jsToFixed 3 dragCoeff, cl = jsToFixed 3 liftCoeff,
                              dragForce = jsToFixed 2 dragF, liftForce = jsToFixed 2 liftF,
                              area = toFixed 4 frontalArea, referenceArea = toFixed 4 refArea,
                              reynolds = jsToFixed 0 re, shapeType = shape,
                              vortexFrequency = jsToFixed 2 vortexFreq, strouhal = toFixed 3 st,
                              pressureDrag = jsToFixed 2 pressureD,
                              frictionDrag = jsToFixed 2 frictionD,
                              debug_velocityMs = jsToFixed 2 velocityMs,
                              debug_widthM = toFixed 3 widthM,
                              debug_heightM = toFixed 3 heightM,
                              debug_characteristicLength = toFixed 3 characteristicLength,
                              debug_aspectRatio = toFixed 3 aspectRatio,
                              debug_solidity = toFixed 3 solidity,
                              debug_camber = jsToFixed 4 camb,
                              debug_thickness = toFixed 4 (thickness geom),
                              debug_alphaL0 = jsToFixed 1 (jsmul camb (- 100))\<rparr>)))))"

section \<open>The simulate route\<close>

text \<open>
  The body of \<open>POST /api/simulate\<close>: \<open>shape\<close>, \<open>shape.points\<close> and \<open>parameters\<close> may each
  be absent; an empty \<open>points\<close> array is present. An exception of \<open>calculateDrag\<close> is
  caught and answered with status 500. The route gives no answer (\<open>None\<close>) when
  \<open>calculateDrag\<close> never returns.
\<close>

record shapeBody =
  points :: "point list option"

record requestBody =
  shape :: "shapeBody option"
  parameters :: "params option"

datatype response = Json result | BadRequest | ServerError

definition simulate :: "requestBody \<Rightarrow> response option" where
  "simulate body =
     (case shape body of
        None \<Rightarrow> Some BadRequest
      | Some sh \<Rightarrow>
         (case points sh of
            None \<Rightarrow> Some BadRequest
          | Some pts \<Rightarrow>
             (case parameters body of
                None \<Rightarrow> Some BadRequest
              | Some prm \<Rightarrow>
                 (case calculateDrag pts prm of
                    None \<Rightarrow> None
                  | Some (Inl e) \<Rightarrow> Some ServerError
                  | Some (Inr r) \<Rightarrow> Some (Json r)))))"

section \<open>Properties of the coefficient models\<close>

lemma finenessRatio_nonneg:
  "0 \<le> ar \<Longrightarrow> finenessRatio ar = PosInf \<or> (\<exists>e. finenessRatio ar = Num e \<and> 0 < e)"
  by (auto simp: finenessRatio_def jsdiv_def max_def)

lemma jsclamp_Num_range:
  "lo \<le> hi \<Longrightarrow> jsclamp lo hi x = Num c \<Longrightarrow> lo \<le> c \<and> c \<le> hi"
  by (cases x) auto

lemma jsclamp_not_NaN: "x \<noteq> NaN \<Longrightarrow> \<exists>c. jsclamp lo hi x = Num c"
  by (cases x) auto

lemma jsmul_eq_NaN_iff: "k \<noteq> 0 \<Longrightarrow> jsmul x k = NaN \<longleftrightarrow> x = NaN"
  by (cases x) auto

lemma circular_factor_nonzero: "- 1 \<le> s \<Longrightarrow> 1.0 + 0.05 * s \<noteq> (0::real)"
  by (simp add: field_simps)

lemma dragCircular_not_NaN: "dragCircular (Num re) a \<noteq> NaN"
proof -
  have base: "jsmax 2.0 (jsdivby 24 (Num re)) \<noteq> NaN"
    by (simp add: jsdiv_def)
  have k: "1.0 + 0.05 * sin \<bar>a * pi / 180\<bar> \<noteq> 0"
    by (rule circular_factor_nonzero) simp
  show ?thesis
    unfolding dragCircular_def Let_def
    using base k by (auto simp: jsmul_eq_NaN_iff jsdiv_def simp del: jsmax.simps jsdivby.simps)
qed

lemma jsdivsqrt_fineness: "0 \<le> ar \<Longrightarrow> \<exists>c. jsdivsqrt k (finenessRatio ar) = Num c"
  using finenessRatio_nonneg [of ar] by (auto simp: jsdiv_def)

lemma jsdivby_fineness: "0 \<le> ar \<Longrightarrow> \<exists>c. jsdivby k (finenessRatio ar) = Num c"
  using finenessRatio_nonneg [of ar] by (auto simp: jsdiv_def)

lemma dragRectangular_not_NaN: "0 \<le> ar \<Longrightarrow> dragRectangular re ar \<noteq> NaN"
  using jsdivsqrt_fineness [of ar "2.0"]
  by (auto simp: dragRectangular_def Let_def)

lemma dragStreamlined_not_NaN: "0 \<le> ar \<Longrightarrow> dragStreamlined ar a g \<noteq> NaN"
  using jsdivsqrt_fineness [of ar "0.3"]
  by (auto simp: dragStreamlined_def Let_def split: option.splits)

lemma dragBluff_not_NaN: "0 \<le> ar \<Longrightarrow> dragBluff re ar sol \<noteq> NaN"
  using jsdivby_fineness [of ar "0.5"]
  by (auto simp: dragBluff_def Let_def)

text \<open>
  Claim C5. For every shape type, (finite) Reynolds number, solidity, angle of attack and
  geometry (present or absent), and every aspect ratio a polygon can have (a
  non-negative number), \<open>calculateDragCoefficient\<close> returns a finite number in the
  closed interval from 0.01 to 2.5.
\<close>

theorem calculateDragCoefficient_clamped:
  assumes "0 \<le> aspectRatio"
  shows "\<exists>c. calculateDragCoefficient st (Num re) aspectRatio solidity angleDegrees geom = Num c
              \<and> 0.01 \<le> c \<and> c \<le> 2.5"
proof -
  let ?raw = "case st of
                Circular \<Rightarrow> dragCircular (Num re) angleDegrees
              | Rectangular \<Rightarrow> dragRectangular (Num re) aspectRatio
              | Streamlined \<Rightarrow> dragStreamlined aspectRatio angleDegrees geom
              | Bluff \<Rightarrow> dragBluff (Num re) aspectRatio solidity"
  have "?raw \<noteq> NaN"
    using assms
    by (cases st)
       (simp_all add: dragCircular_not_NaN dragRectangular_not_NaN
          dragStreamlined_not_NaN dragBluff_not_NaN)
  then obtain c where c: "jsclamp 0.01 2.5 ?raw = Num c"
    using jsclamp_not_NaN by blast
  then have "0.01 \<le> c \<and> c \<le> 2.5"
    using jsclamp_Num_range [of "0.01" "2.5" ?raw c] by simp
  with c show ?thesis
    by (simp add: calculateDragCoefficient_def)
qed

theorem calculateDragCoefficient_clamped_witness:
  "(0::real) \<le> 1
   \<and> (\<exists>c. calculateDragCoefficient Rectangular (Num 1000) 1 1 0 None = Num c
            \<and> 0.01 \<le> c \<and> c \<le> 2.5)"
  using calculateDragCoefficient_clamped [of 1 Rectangular 1000 1 0 None] by simp

text \<open>
  Claim C6. When the geometry passed to \<open>calculateLiftCoefficient\<close> has
  \<open>isSymmetric\<close> true and the angle of attack is less than 0.5 degrees in absolute
  value, the lift coefficient is exactly 0, for every shape type, Reynolds number,
  aspect ratio and solidity.
\<close>

theorem symmetric_lift_zero:
  "isSymmetric g \<Longrightarrow> \<bar>angleDegrees\<bar> < 0.5 \<Longrightarrow>
   calculateLiftCoefficient st re aspectRatio angleDegrees solidity (Some g) = Num 0"
  by (simp add: calculateLiftCoefficient_def Let_def)

theorem symmetric_lift_zero_witness:
  "isSymmetric \<lparr>camber = Finite 0, maxCamber = None, thickness = 0.12,
                 isSymmetric = True, teAngle = 10, leRadius = 0.05\<rparr>
   \<and> \<bar>0::real\<bar> < 0.5
   \<and> calculateLiftCoefficient Streamlined (Num 500000) 4 0 0.6
        (Some \<lparr>camber = Finite 0, maxCamber = None, thickness = 0.12,
                isSymmetric = True, teAngle = 10, leRadius = 0.05\<rparr>) = Num 0"
  using symmetric_lift_zero [of "\<lparr>camber = Finite 0, maxCamber = None, thickness = 0.12,
                 isSymmetric = True, teAngle = 10, leRadius = 0.05\<rparr>" 0 Streamlined "Num 500000" 4 "0.6"]
  by simp

text \<open>
  Claim C7. For the circular class at Reynolds number 350000 and angle of attack 0,
  \<open>calculateDragCoefficient\<close> returns exactly 0.75, the midpoint of the blend from 1.2
  to 0.3 (in exact arithmetic).
\<close>

theorem drag_crisis_midpoint:
  "calculateDragCoefficient Circular (Num 350000) aspectRatio solidity 0 geom = Num 0.75"
  by (simp add: calculateDragCoefficient_def dragCircular_def)

section \<open>Angle normalisation\<close>

lemma roundEven_of_int: "roundEven (of_int z) = z"
  by (simp add: roundEven_def)

lemma two_powr_nonneg_int:
  assumes "0 \<le> k"
  shows "(2::real) powr of_int k = of_int (2 ^ nat k)"
  using assms by (simp add: powr_int)

lemma toDouble_exact:
  assumes x: "x = of_int m * 2 powr of_int j"
    and bound: "\<bar>x\<bar> < 2 powr (of_int j + 53)"
    and j: "- 1074 \<le> j"
  shows "toDouble x = x"
proof (cases "x = 0")
  case True
  then show ?thesis by (simp add: toDouble_def)
next
  case False
  define e where "e = \<lfloor>log 2 \<bar>x\<bar>\<rfloor>"
  define E where "E = max e (- 1022) - 52"
  from False have pos: "0 < \<bar>x\<bar>" by simp
  have "log 2 \<bar>x\<bar> < of_int j + 53"
    using bound pos by (simp add: log_less_iff)
  then have "e < j + 53"
    unfolding e_def by linarith
  with j have Ej: "E \<le> j"
    unfolding E_def by simp
  define k where "k = j - E"
  have k: "0 \<le> k" using Ej by (simp add: k_def)
  have ulp: "ulp x = 2 powr of_int E"
    by (simp add: ulp_def E_def e_def)
  have split: "(2::real) powr of_int j = 2 powr of_int k * 2 powr of_int E"
    by (simp add: k_def powr_add [symmetric])
  define z where "z = m * 2 ^ nat k"
  have xz: "x = of_int z * 2 powr of_int E"
    unfolding z_def x split using two_powr_nonneg_int [OF k] by simp
  have "x / ulp x = x / 2 powr of_int E"
    by (simp only: ulp)
  also have "\<dots> = of_int z"
    by (subst xz) simp
  finally have quot: "x / ulp x = of_int z" .
  have "toDouble x = of_int (roundEven (x / ulp x)) * ulp x"
    using False by (simp add: toDouble_def)
  also have "\<dots> = of_int z * 2 powr of_int E"
    by (subst quot) (simp only: roundEven_of_int ulp)
  also have "\<dots> = x"
    by (rule xz [symmetric])
  finally show ?thesis .
qed

lemma onGrid_toDouble: "onGrid j a \<Longrightarrow> toDouble a = a"
  unfolding onGrid_def using toDouble_exact by blast

lemma grid_360:
  assumes "j \<le> 3"
  shows "(360::real) = of_int (45 * 2 ^ nat (3 - j)) * 2 powr of_int j"
proof -
  have k: "0 \<le> 3 - j" using assms by simp
  have "(2::real) powr of_int (3 - j) * 2 powr of_int j = 2 powr 3"
    by (simp add: powr_add [symmetric])
  then have "of_int (2 ^ nat (3 - j)) * 2 powr of_int j = (8::real)"
    using two_powr_nonneg_int [OF k] by simp
  then show ?thesis by (simp add: mult.commute)
qed

lemma onGrid_shift:
  assumes g: "onGrid j a" and small: "\<bar>a + s * 360\<bar> \<le> \<bar>a\<bar>" and s: "s = 1 \<or> s = - 1"
  shows "onGrid j (a + s * 360)"
proof -
  from g obtain m :: int where m: "a = of_int m * 2 powr of_int j"
    and j: "- 1074 \<le> j" "j \<le> 3" and b: "\<bar>a\<bar> < 2 powr (of_int j + 53)"
    unfolding onGrid_def by blast
  obtain si :: int where si: "s = of_int si"
    using s by (metis of_int_1 of_int_minus)
  have "a + s * 360 = of_int (m + si * (45 * 2 ^ nat (3 - j))) * 2 powr of_int j"
    unfolding si by (subst grid_360 [OF j(2)], subst m) (simp add: algebra_simps)
  moreover have "\<bar>a + s * 360\<bar> < 2 powr (of_int j + 53)"
    using small b by linarith
  ultimately show ?thesis
    unfolding onGrid_def using j by blast
qed

lemma step_down:
  assumes "onGrid j a" "180 < a"
  shows "toDouble (a - 360) = a - 360 \<and> onGrid j (a - 360)"
proof -
  have "\<bar>a + (- 1) * 360\<bar> \<le> \<bar>a\<bar>" using assms(2) by simp
  then have "onGrid j (a + (- 1) * 360)"
    using onGrid_shift [OF assms(1), of "- 1"] by simp
  then have "onGrid j (a - 360)" by simp
  then show ?thesis using onGrid_toDouble by simp
qed

lemma step_up:
  assumes "onGrid j a" "a < - 180"
  shows "toDouble (a + 360) = a + 360 \<and> onGrid j (a + 360)"
proof -
  have "\<bar>a + 1 * 360\<bar> \<le> \<bar>a\<bar>" using assms(2) by simp
  then have "onGrid j (a + 1 * 360)"
    using onGrid_shift [OF assms(1), of 1] by simp
  then have "onGrid j (a + 360)" by simp
  then show ?thesis using onGrid_toDouble by simp
qed

lemma normalizeDown_stop:
  assumes "onGrid j a" "a \<le> 180"
  shows "\<exists>r. normalizeDown a = Some r \<and> onGrid j r \<and> r \<le> 180
        \<and> (\<exists>i::int. r = a + 360 * of_int i) \<and> (180 < a \<longrightarrow> - 180 < r)
        \<and> (a \<le> 180 \<longrightarrow> r = a)"
proof -
  have "normalizeDown a = Some a"
    using assms(2) by (simp add: normalizeDown.simps [of a])
  moreover have "\<exists>i::int. a = a + 360 * of_int i"
    by (rule exI [of _ 0]) simp
  ultimately show ?thesis using assms by simp
qed

lemma normalizeDown_result:
  "onGrid j a \<Longrightarrow> a \<le> 180 + 360 * real k \<Longrightarrow>
   \<exists>r. normalizeDown a = Some r \<and> onGrid j r \<and> r \<le> 180
        \<and> (\<exists>i::int. r = a + 360 * of_int i) \<and> (180 < a \<longrightarrow> - 180 < r)
        \<and> (a \<le> 180 \<longrightarrow> r = a)"
proof (induction k arbitrary: a)
  case 0
  then show ?case using normalizeDown_stop [of j a] by simp
next
  case (Suc k)
  show ?case
  proof (cases "180 < a")
    case False
    then show ?thesis using normalizeDown_stop [of j a] Suc.prems(1) by simp
  next
    case True
    from step_down [OF Suc.prems(1) True]
    have ex: "toDouble (a - 360) = a - 360" and g: "onGrid j (a - 360)" by simp_all
    have "a - 360 \<le> 180 + 360 * real k" using Suc.prems(2) by simp
    from Suc.IH [OF g this] obtain r where
      r: "normalizeDown (a - 360) = Some r" "onGrid j r" "r \<le> 180"
        "\<exists>i::int. r = a - 360 + 360 * of_int i" "180 < a - 360 \<longrightarrow> - 180 < r"
        "a - 360 \<le> 180 \<longrightarrow> r = a - 360"
      by blast
    from r(4) obtain i :: int where i: "r = a - 360 + 360 * of_int i" by blast
    have 1: "normalizeDown a = Some r"
      using True r(1) by (simp add: normalizeDown.simps [of a] ex)
    have "r = a + 360 * of_int (i - 1)" using i by simp
    then have 2: "\<exists>i::int. r = a + 360 * of_int i" by (rule exI)
    have 3: "- 180 < r" using r(5,6) True by (cases "180 < a - 360") simp_all
    show ?thesis using 1 2 3 r(2,3) True by simp
  qed
qed

lemma normalizeUp_stop:
  assumes "- 180 \<le> a" "a \<le> 180"
  shows "\<exists>r. normalizeUp a = Some r \<and> - 180 \<le> r \<and> r \<le> 180
        \<and> (\<exists>i::int. r = a + 360 * of_int i) \<and> (- 180 \<le> a \<longrightarrow> r = a)"
proof -
  have "normalizeUp a = Some a"
    using assms(1) by (simp add: normalizeUp.simps [of a])
  moreover have "\<exists>i::int. a = a + 360 * of_int i"
    by (rule exI [of _ 0]) simp
  ultimately show ?thesis using assms by simp
qed

lemma normalizeUp_result:
  "onGrid j a \<Longrightarrow> a \<le> 180 \<Longrightarrow> - 180 - 360 * real k \<le> a \<Longrightarrow>
   \<exists>r. normalizeUp a = Some r \<and> - 180 \<le> r \<and> r \<le> 180
        \<and> (\<exists>i::int. r = a + 360 * of_int i) \<and> (- 180 \<le> a \<longrightarrow> r = a)"
proof (induction k arbitrary: a)
  case 0
  then show ?case using normalizeUp_stop [of a] by simp
next
  case (Suc k)
  show ?case
  proof (cases "a < - 180")
    case False
    then show ?thesis using normalizeUp_stop [of a] Suc.prems(2) by simp
  next
    case True
    from step_up [OF Suc.prems(1) True]
    have ex: "toDouble (a + 360) = a + 360" and g: "onGrid j (a + 360)" by simp_all
    have le: "a + 360 \<le> 180" using True by simp
    have ge: "- 180 - 360 * real k \<le> a + 360" using Suc.prems(3) by simp
    from Suc.IH [OF g le ge] obtain r where
      r: "normalizeUp (a + 360) = Some r" "- 180 \<le> r" "r \<le> 180"
        "\<exists>i::int. r = a + 360 + 360 * of_int i"
      by blast
    from r(4) obtain i :: int where i: "r = a + 360 + 360 * of_int i" by blast
    have 1: "normalizeUp a = Some r"
      using True r(1) by (simp add: normalizeUp.simps [of a] ex)
    have "r = a + 360 * of_int (i + 1)" using i by simp
    then have 2: "\<exists>i::int. r = a + 360 * of_int i" by (rule exI)
    show ?thesis using 1 2 r(2,3) True by simp
  qed
qed

lemma exactAngle_onGrid: "exactAngle a \<Longrightarrow> \<exists>j. onGrid j a"
proof -
  assume "exactAngle a"
  then obtain m j :: int where a: "a = of_int m * 2 powr of_int j" and m: "\<bar>m\<bar> < 2 ^ 53"
    and j: "- 1074 \<le> j" "j \<le> 3"
    unfolding exactAngle_def by blast
  have "\<bar>a\<bar> = of_int \<bar>m\<bar> * 2 powr of_int j"
    by (simp add: a abs_mult)
  also have "\<dots> < 2 ^ 53 * 2 powr of_int j"
  proof -
    have "(of_int \<bar>m\<bar> :: real) < of_int (2 ^ 53)"
      using m by (simp only: of_int_less_iff)
    then show ?thesis by simp
  qed
  also have "\<dots> = 2 powr (of_int j + 53)"
    by (simp add: powr_add)
  finally show ?thesis
    unfolding onGrid_def using a j by blast
qed

lemma normalizeAngle_range_aux:
  assumes "exactAngle a"
  shows "\<exists>r. normalizeAngle a = Some r \<and> - 180 \<le> r \<and> r \<le> 180
             \<and> (\<exists>k::int. r = a + 360 * of_int k)"
proof -
  obtain j where g: "onGrid j a" using exactAngle_onGrid [OF assms] by blast
  define k where "k = nat \<lceil>(a - 180) / 360\<rceil>"
  have "(a - 180) / 360 \<le> real k" unfolding k_def by linarith
  then have "a \<le> 180 + 360 * real k" by simp
  from normalizeDown_result [OF g this] obtain b where
    b: "normalizeDown a = Some b" "onGrid j b" "b \<le> 180"
      and bi: "\<exists>i::int. b = a + 360 * of_int i"
    by blast
  from bi obtain i :: int where i: "b = a + 360 * of_int i" by blast
  define n where "n = nat \<lceil>(- 180 - b) / 360\<rceil>"
  have "(- 180 - b) / 360 \<le> real n" unfolding n_def by linarith
  then have "- 180 - 360 * real n \<le> b" by simp
  from normalizeUp_result [OF b(2,3) this] obtain r where
    r: "normalizeUp b = Some r" "- 180 \<le> r" "r \<le> 180"
      and ri: "\<exists>i::int. r = b + 360 * of_int i"
    by blast
  from ri obtain i' :: int where i': "r = b + 360 * of_int i'" by blast
  have "normalizeAngle a = Some r"
    by (simp add: normalizeAngle_def b(1) r(1))
  moreover have "r = a + 360 * of_int (i + i')"
    using i i' by simp
  then have "\<exists>k::int. r = a + 360 * of_int k" by (rule exI)
  ultimately show ?thesis using r(2,3) by simp
qed

text \<open>
  Claim C8, amended. For every input angle that is a double of magnitude below
  \<open>2\<^sup>5\<^sup>6\<close> the normalisation ends, and the normalised angle lies in the closed
  interval from -180 to 180 and differs from the input by an integer multiple of
  360 degrees.
\<close>

theorem normalizeAngle_closed_range:
  assumes "exactAngle a"
  shows "\<exists>r. normalizeAngle a = Some r \<and> - 180 \<le> r \<and> r \<le> 180
             \<and> (\<exists>k::int. r = a + 360 * of_int k)"
  using assms by (rule normalizeAngle_range_aux)

theorem normalizeAngle_closed_range_witness:
  "exactAngle 540
   \<and> (\<exists>r. normalizeAngle 540 = Some r \<and> - 180 \<le> r \<and> r \<le> 180
            \<and> (\<exists>k::int. r = 540 + 360 * of_int k))"
proof -
  have e: "exactAngle 540"
    unfolding exactAngle_def
    by (rule exI [of _ 540], rule exI [of _ 0]) simp
  from normalizeAngle_closed_range [OF e] e show ?thesis by simp
qed

lemma normalizeAngle_fixed: "- 180 \<le> a \<Longrightarrow> a \<le> 180 \<Longrightarrow> normalizeAngle a = Some a"
  by (simp add: normalizeAngle_def normalizeDown.simps [of a] normalizeUp.simps [of a])

lemma floor_log2: "2 powr of_int n \<le> x \<Longrightarrow> x < 2 powr (of_int n + 1) \<Longrightarrow> \<lfloor>log 2 x\<rfloor> = n"
proof -
  assume a: "2 powr of_int n \<le> x" "x < 2 powr (of_int n + 1)"
  have "0 < x" using a(1) by (rule less_le_trans [rotated]) simp
  then show ?thesis using a by (simp add: floor_log_eq_powr_iff)
qed

lemma absorbed: "toDouble 9999999999999999640 = 10000000000000000000"
proof -
  have e: "\<lfloor>log 2 \<bar>9999999999999999640 :: real\<bar>\<rfloor> = 63"
    by (rule floor_log2) (simp_all add: powr_int)
  have u: "ulp 9999999999999999640 = 2048"
    unfolding ulp_def e by (simp add: powr_int)
  show ?thesis
    unfolding toDouble_def u by (simp add: roundEven_def)
qed

lemma normalizeDown_not_absorbed:
  assumes r: "normalizeDown a = Some y"
  shows "a \<noteq> 10000000000000000000"
proof (rule normalizeDown.raw_induct [where P = "\<lambda>x y. x \<noteq> 10000000000000000000", OF _ r])
  fix f :: "real \<Rightarrow> real option" and x y :: real
  assume IH: "\<And>x y. f x = Some y \<Longrightarrow> x \<noteq> 10000000000000000000"
    and eq: "(if 180 < x then f (toDouble (x - 360)) else Some x) = Some y"
  show "x \<noteq> 10000000000000000000"
  proof
    assume x: "x = 10000000000000000000"
    have "f 10000000000000000000 = Some y"
      using eq x by (simp add: absorbed)
    from IH [OF this] show False by simp
  qed
qed

lemma normalizeDown_hangs: "normalizeDown 10000000000000000000 = None"
  by (cases "normalizeDown 10000000000000000000") (auto dest: normalizeDown_not_absorbed)

lemma normalizeAngle_hangs: "normalizeAngle 10000000000000000000 = None"
  by (simp add: normalizeAngle_def normalizeDown_hangs)

text \<open>
  The input -180 is left at -180, so the lower bound is not strict; and at
  \<open>10\<^sup>1\<^sup>9\<close> the subtraction of 360 rounds back to \<open>10\<^sup>1\<^sup>9\<close>, so the first loop
  never ends.
\<close>

theorem normalizeAngle_counterexample:
  "\<not> (\<exists>r. normalizeAngle (- 180) = Some r \<and> - 180 < r \<and> r \<le> 180)
   \<and> normalizeAngle 10000000000000000000 = None"
  by (simp add: normalizeAngle_fixed normalizeAngle_hangs)

section \<open>Polygon area\<close>

lemma Suc_mod_less: "i < n \<Longrightarrow> Suc i mod n < (n::nat)"
  by (rule mod_less_divisor) simp

lemma cyclic_shift_sum:
  fixes f :: "nat \<Rightarrow> real"
  shows "(\<Sum>i = 0..<n. f (Suc i mod n)) = (\<Sum>i = 0..<n. f i)"
proof (cases n)
  case 0
  then show ?thesis by simp
next
  case (Suc m)
  have inner: "(\<Sum>i = 0..<m. f (Suc i mod Suc m)) = (\<Sum>i = 0..<m. f (Suc i))"
    by (rule sum.cong) auto
  have shift: "(\<Sum>i = 0..<Suc m. f i) = f 0 + (\<Sum>i = 0..<m. f (Suc i))"
    by (simp add: sum.atLeast0_lessThan_Suc_shift del: sum.op_ivl_Suc)
  have "(\<Sum>i = 0..<Suc m. f (Suc i mod Suc m))
          = (\<Sum>i = 0..<m. f (Suc i mod Suc m)) + f (Suc m mod Suc m)"
    by simp
  also have "\<dots> = (\<Sum>i = 0..<m. f (Suc i)) + f 0"
    using inner by simp
  also have "\<dots> = (\<Sum>i = 0..<Suc m. f i)"
    using shift by simp
  finally show ?thesis using Suc by simp
qed

lemma shoelaceSum_cross:
  "shoelaceSum ps = (\<Sum>i = 0..<length ps. cross (ps ! i) (ps ! (Suc i mod length ps)))"
  by (simp add: shoelaceSum_def cross_def Let_def interv_sum_list_conv_sum_set_nat)

lemma cyclic_telescope:
  fixes g :: "nat \<Rightarrow> real"
  shows "(\<Sum>i = 0..<n. g (Suc i mod n) - g i) = 0"
  by (simp add: sum_subtractf cyclic_shift_sum)

lemma shoelaceSum_perturb:
  assumes "\<And>p q. F p q = cross p q + (h q - h p)"
  shows "(\<Sum>i = 0..<length ps. F (ps ! i) (ps ! (Suc i mod length ps))) = shoelaceSum ps"
proof -
  let ?n = "length ps"
  have "(\<Sum>i = 0..<?n. F (ps ! i) (ps ! (Suc i mod ?n)))
      = (\<Sum>i = 0..<?n. cross (ps ! i) (ps ! (Suc i mod ?n)))
        + (\<Sum>i = 0..<?n. h (ps ! (Suc i mod ?n)) - h (ps ! i))"
    by (simp add: assms sum.distrib)
  also have "(\<Sum>i = 0..<?n. h (ps ! (Suc i mod ?n)) - h (ps ! i)) = 0"
    by (rule cyclic_telescope [of "\<lambda>i. h (ps ! i)"])
  finally show ?thesis by (simp add: shoelaceSum_cross)
qed

lemma shoelaceSum_map:
  "shoelaceSum (map T ps)
     = (\<Sum>i = 0..<length ps. cross (T (ps ! i)) (T (ps ! (Suc i mod length ps))))"
proof -
  have "(\<Sum>i = 0..<length ps. cross (map T ps ! i) (map T ps ! (Suc i mod length ps)))
          = (\<Sum>i = 0..<length ps. cross (T (ps ! i)) (T (ps ! (Suc i mod length ps))))"
    by (rule sum.cong) (simp_all add: Suc_mod_less)
  then show ?thesis
    by (simp add: shoelaceSum_cross)
qed

lemma rotate_cross:
  fixes c s cx cy :: real
  assumes cs: "c * c + s * s = 1"
  shows "cross (cx + ((fst p - cx) * c - (snd p - cy) * s),
                cy + ((fst p - cx) * s + (snd p - cy) * c))
               (cx + ((fst q - cx) * c - (snd q - cy) * s),
                cy + ((fst q - cx) * s + (snd q - cy) * c))
         = cross p q
           + ((cross (cx, cy) (cx + ((fst q - cx) * c - (snd q - cy) * s),
                               cy + ((fst q - cx) * s + (snd q - cy) * c))
               - cross (cx, cy) q)
              - (cross (cx, cy) (cx + ((fst p - cx) * c - (snd p - cy) * s),
                                 cy + ((fst p - cx) * s + (snd p - cy) * c))
               - cross (cx, cy) p))"
proof -
  have "cross (cx + ((fst p - cx) * c - (snd p - cy) * s),
                cy + ((fst p - cx) * s + (snd p - cy) * c))
               (cx + ((fst q - cx) * c - (snd q - cy) * s),
                cy + ((fst q - cx) * s + (snd q - cy) * c))
        - ((cross (cx, cy) (cx + ((fst q - cx) * c - (snd q - cy) * s),
                               cy + ((fst q - cx) * s + (snd q - cy) * c))
               - cross (cx, cy) q)
              - (cross (cx, cy) (cx + ((fst p - cx) * c - (snd p - cy) * s),
                                 cy + ((fst p - cx) * s + (snd p - cy) * c))
               - cross (cx, cy) p))
        = (c * c + s * s) * (cross p q - cross p (cx, cy) - cross (cx, cy) q)
           + cross p (cx, cy) + cross (cx, cy) q"
    by (simp add: cross_def algebra_simps)
  then show ?thesis
    by (simp add: cs cross_def algebra_simps)
qed

lemma area_rotation_invariant:
  "calculatePolygonArea (rotatePoints ps angleDegrees) = calculatePolygonArea ps"
proof -
  define c where "c = cos ((angleDegrees * pi) / 180)"
  define s where "s = sin ((angleDegrees * pi) / 180)"
  define cx where "cx = fst (getCentroid ps)"
  define cy where "cy = snd (getCentroid ps)"
  define T where "T = (\<lambda>p::point. (cx + ((fst p - cx) * c - (snd p - cy) * s),
                                     cy + ((fst p - cx) * s + (snd p - cy) * c)))"
  define h where "h = (\<lambda>p::point. cross (cx, cy) (T p) - cross (cx, cy) p)"
  have cs: "c * c + s * s = 1"
    by (simp add: c_def s_def power2_eq_square [symmetric])
  have rot: "rotatePoints ps angleDegrees = map T ps"
    by (simp add: rotatePoints_def Let_def T_def c_def s_def cx_def cy_def)
  have "\<And>p q. cross (T p) (T q) = cross p q + (h q - h p)"
    unfolding T_def h_def by (rule rotate_cross [OF cs])
  then have "(\<Sum>i = 0..<length ps. cross (T (ps ! i)) (T (ps ! (Suc i mod length ps))))
               = shoelaceSum ps"
    by (rule shoelaceSum_perturb)
  then have "shoelaceSum (map T ps) = shoelaceSum ps"
    by (simp add: shoelaceSum_map)
  then show ?thesis
    by (simp add: calculatePolygonArea_def rot)
qed

lemma shoelaceSum_rev: "shoelaceSum (rev ps) = - shoelaceSum ps"
proof -
  let ?n = "length ps"
  define g where "g = (\<lambda>j. cross (ps ! (Suc j mod ?n)) (ps ! j))"
  have summand: "cross (rev ps ! i) (rev ps ! (Suc i mod ?n)) = g (?n - Suc (Suc i mod ?n))"
    if "i < ?n" for i
  proof -
    have lt: "Suc i mod ?n < ?n" using that by (rule Suc_mod_less)
    have idx: "Suc (?n - Suc (Suc i mod ?n)) mod ?n = ?n - Suc i"
    proof (cases "Suc i < ?n")
      case True
      then show ?thesis by simp
    next
      case False
      with that have "?n = Suc i" by simp
      then show ?thesis by simp
    qed
    show ?thesis
      using that lt by (simp add: rev_nth g_def idx)
  qed
  have "shoelaceSum (rev ps) = (\<Sum>i = 0..<?n. cross (rev ps ! i) (rev ps ! (Suc i mod ?n)))"
    by (simp add: shoelaceSum_cross)
  also have "\<dots> = (\<Sum>i = 0..<?n. g (?n - Suc (Suc i mod ?n)))"
    by (rule sum.cong) (simp_all add: summand)
  also have "\<dots> = (\<Sum>i = 0..<?n. g (?n - Suc i))"
    by (rule cyclic_shift_sum [of "\<lambda>k. g (?n - Suc k)"])
  also have "\<dots> = (\<Sum>i = 0..<?n. g i)"
    using sum.nat_diff_reindex [of g ?n] by (simp add: atLeast0LessThan)
  also have "\<dots> = - (\<Sum>i = 0..<?n. cross (ps ! i) (ps ! (Suc i mod ?n)))"
    by (simp add: g_def cross_def sum_negf [symmetric])
  finally show ?thesis by (simp add: shoelaceSum_cross)
qed

text \<open>
  Claim C9. For every point list, \<open>calculatePolygonArea\<close> of the reversed list equals
  that of the list, and \<open>calculatePolygonArea\<close> of the list rotated about its centroid
  by any angle equals that of the list (in exact arithmetic).
\<close>

theorem polygonArea_reversal_rotation:
  "calculatePolygonArea (rev ps) = calculatePolygonArea ps
   \<and> calculatePolygonArea (rotatePoints ps angleDegrees) = calculatePolygonArea ps"
  by (simp add: area_rotation_invariant) (simp add: calculatePolygonArea_def shoelaceSum_rev)

section \<open>The solver on empty and degenerate input\<close>

lemma rotatePoints_Nil_iff: "rotatePoints ps a = [] \<longleftrightarrow> ps = []"
  by (simp add: rotatePoints_def Let_def)

lemma getBoundingBox_None_iff: "getBoundingBox ps = None \<longleftrightarrow> ps = []"
  by (auto simp: getBoundingBox_def split: list.splits prod.splits)

lemma getBoundingBox_rotate_Some:
  "ps \<noteq> [] \<Longrightarrow> \<exists>b. getBoundingBox (rotatePoints ps a) = Some b"
  using getBoundingBox_None_iff [of "rotatePoints ps a"] rotatePoints_Nil_iff [of ps a]
  by auto

lemma exactAngle_int: "\<bar>n\<bar> < 2 ^ 53 \<Longrightarrow> exactAngle (of_int n)"
  unfolding exactAngle_def
  by (rule exI [of _ n], rule exI [of _ 0]) simp

lemma normalizeAngle_returns:
  assumes "case angle prm of None \<Rightarrow> True | Some a \<Rightarrow> exactAngle a"
  shows "\<exists>a'. normalizeAngle (case angle prm of None \<Rightarrow> 0 | Some a \<Rightarrow> a) = Some a'"
proof (cases "angle prm")
  case None
  then show ?thesis by (simp add: normalizeAngle_fixed)
next
  case (Some a)
  with assms have "exactAngle a" by simp
  from normalizeAngle_range_aux [OF this] Some show ?thesis by auto
qed

lemma calculateDrag_hangs:
  "normalizeAngle (case angle prm of None \<Rightarrow> 0 | Some a \<Rightarrow> a) = None \<Longrightarrow>
   calculateDrag ps prm = None"
  by (simp add: calculateDrag_def)

lemma calculateDrag_Nil:
  "normalizeAngle (case angle prm of None \<Rightarrow> 0 | Some a \<Rightarrow> a) = Some a' \<Longrightarrow>
   calculateDrag [] prm = Some (Inl TypeError)"
  by (simp add: calculateDrag_def Let_def rotatePoints_def getBoundingBox_def)

lemma analyzeGeometry_degenerate:
  "maxX b = minX b \<Longrightarrow>
   analyzeGeometry ps b = Inr \<lparr>camber = Undefined, maxCamber = Some 0, thickness = 0,
                               isSymmetric = True, teAngle = 180, leRadius = 0\<rparr>"
  by (simp add: analyzeGeometry_def)

lemma analyzeGeometry_camber_defined:
  assumes "ps \<noteq> []" and "maxX b \<noteq> minX b"
  shows "\<exists>g. analyzeGeometry ps b = Inr g \<and> camber g \<noteq> Undefined"
proof -
  from assms(1) obtain p0 rest where ps: "ps = p0 # rest" by (cases ps) auto
  from assms(2) have chord: "(maxX b - minX b = 0) = False" by simp
  show ?thesis
    unfolding analyzeGeometry_def ps
    by (simp only: Let_def chord if_False list.case split: prod.splits if_splits)
       (simp only: sum.inject geometry.simps camberValue.distinct simp_thms ex_simps)
qed

lemma calculateDrag_returns:
  assumes "getBoundingBox ps = Some b" and "maxX b \<noteq> minX b"
    and ang: "normalizeAngle (case angle prm of None \<Rightarrow> 0 | Some a \<Rightarrow> a) = Some a'"
  shows "\<exists>r. calculateDrag ps prm = Some (Inr r)"
proof -
  from assms(1) have ne: "ps \<noteq> []"
    using getBoundingBox_None_iff [of ps] by auto
  then obtain rb where rb: "getBoundingBox (rotatePoints ps a') = Some rb"
    using getBoundingBox_rotate_Some by blast
  obtain g where g: "analyzeGeometry ps b = Inr g" "camber g \<noteq> Undefined"
    using analyzeGeometry_camber_defined [OF ne assms(2)] by blast
  show ?thesis
    using g(2)
    by (cases "camber g") (simp_all add: calculateDrag_def Let_def ang rb assms(1) g(1))
qed

text \<open>What a returned result holds, field by field.\<close>

lemma calculateDrag_result:
  assumes "calculateDrag ps prm = Some (Inr r)"
  shows "\<exists>a b b0 g.
      normalizeAngle (case angle prm of None \<Rightarrow> 0 | Some x \<Rightarrow> x) = Some a
      \<and> getBoundingBox (rotatePoints ps a) = Some b
      \<and> getBoundingBox ps = Some b0 \<and> analyzeGeometry ps b0 = Inr g
      \<and> (let rho = (case airDensity prm of None \<Rightarrow> 1.225
                                          | Some d \<Rightarrow> if d = 0 then 1.225 else d);
              v = (case windSpeed prm of None \<Rightarrow> NaN | Some w \<Rightarrow> Num (w / 3.6));
              sol = (if width b * height b > 0
                     then calculatePolygonArea ps / (width b * height b) else 1);
              ar = (if height b > 0 then width b / height b else 1);
              len = (if shapeType r = Circular then width b / 100
                     else if shapeType r = Streamlined then width b / 100
                     else sqrt (calculatePolygonArea ps / 10000));
              re = calculateReynolds v len rho AIR_DYNAMIC_VISCOSITY;
              q = jstimes (jsmul v (0.5 * rho)) v
          in shapeType r = classifyShape ps b sol
           \<and> debug_solidity r = toFixed 3 sol
           \<and> debug_aspectRatio r = toFixed 3 ar
           \<and> reynolds r = jsToFixed 0 re
           \<and> cd r = jsToFixed 3 (calculateDragCoefficient (shapeType r) re ar sol a None)
           \<and> dragForce r = jsToFixed 2 (jstimes (jsmul q (height b / 100))
                 (calculateDragCoefficient (shapeType r) re ar sol a None))
           \<and> liftForce r = jsToFixed 2 (jstimes (jsmul q (max (height b / 100) (width b / 100)))
                 (calculateLiftCoefficient (shapeType r) re ar a sol (Some g))))"
proof -
  obtain a where a: "normalizeAngle (case angle prm of None \<Rightarrow> 0 | Some x \<Rightarrow> x) = Some a"
    using assms calculateDrag_hangs [of prm ps]
    by (cases "normalizeAngle (case angle prm of None \<Rightarrow> 0 | Some x \<Rightarrow> x)") auto
  have ne: "ps \<noteq> []"
    using assms calculateDrag_Nil [OF a] by auto
  then obtain b where b: "getBoundingBox (rotatePoints ps a) = Some b"
    using getBoundingBox_rotate_Some by blast
  from ne obtain b0 where b0: "getBoundingBox ps = Some b0"
    using getBoundingBox_None_iff [of ps] by auto
  obtain g where g: "analyzeGeometry ps b0 = Inr g"
    using assms
    by (cases "analyzeGeometry ps b0") (simp_all add: calculateDrag_def Let_def a b b0)
  have "let rho = (case airDensity prm of None \<Rightarrow> 1.225
                                          | Some d \<Rightarrow> if d = 0 then 1.225 else d);
              v = (case windSpeed prm of None \<Rightarrow> NaN | Some w \<Rightarrow> Num (w / 3.6));
              sol = (if width b * height b > 0
                     then calculatePolygonArea ps / (width b * height b) else 1);
              ar = (if height b > 0 then width b / height b else 1);
              len = (if shapeType r = Circular then width b / 100
                     else if shapeType r = Streamlined then width b / 100
                     else sqrt (calculatePolygonArea ps / 10000));
              re = calculateReynolds v len rho AIR_DYNAMIC_VISCOSITY;
              q = jstimes (jsmul v (0.5 * rho)) v
          in shapeType r = classifyShape ps b sol
           \<and> debug_solidity r = toFixed 3 sol
           \<and> debug_aspectRatio r = toFixed 3 ar
           \<and> reynolds r = jsToFixed 0 re
           \<and> cd r = jsToFixed 3 (calculateDragCoefficient (shapeType r) re ar sol a None)
           \<and> dragForce r = jsToFixed 2 (jstimes (jsmul q (height b / 100))
                 (calculateDragCoefficient (shapeType r) re ar sol a None))
           \<and> liftForce r = jsToFixed 2 (jstimes (jsmul q (max (height b / 100) (width b / 100)))
                 (calculateLiftCoefficient (shapeType r) re ar a sol (Some g)))"
    using assms
    by (cases "camber g")
       (auto simp: calculateDrag_def Let_def a b b0 g PIXELS_PER_METER_def
             split del: if_split cong: if_cong)
  with a b b0 g show ?thesis by blast
qed

text \<open>
  Claim C3. For a polygon whose vertices all share one \<open>x\<close> coordinate (its box has
  \<open>maxX = minX\<close>) the claim expects the analyzer to return a record with \<open>camber: 0\<close>
  and the solve operation to complete. The source returns a record that has
  \<open>maxCamber\<close> and no \<open>camber\<close>, and \<open>calculateDrag\<close> then throws while formatting
  \<open>geometry.camber\<close>: for every such polygon and all parameters the solve operation
  ends in the TypeError as soon as its angle loops end, which they do when the
  angle is absent or a double below \<open>2\<^sup>5\<^sup>6\<close> in magnitude.
\<close>

theorem degenerate_chord_throws:
  assumes "getBoundingBox ps = Some b" and "maxX b = minX b"
  shows "analyzeGeometry ps b = Inr \<lparr>camber = Undefined, maxCamber = Some 0, thickness = 0,
                                     isSymmetric = True, teAngle = 180, leRadius = 0\<rparr>
         \<and> calculateDrag ps prm =
             (case normalizeAngle (case angle prm of None \<Rightarrow> 0 | Some a \<Rightarrow> a) of
                None \<Rightarrow> None
              | Some a \<Rightarrow> Some (Inl TypeError))
         \<and> ((case angle prm of None \<Rightarrow> True | Some a \<Rightarrow> exactAngle a) \<longrightarrow>
               calculateDrag ps prm = Some (Inl TypeError))"
proof -
  let ?n = "normalizeAngle (case angle prm of None \<Rightarrow> 0 | Some a \<Rightarrow> a)"
  from assms(1) have ne: "ps \<noteq> []"
    using getBoundingBox_None_iff [of ps] by auto
  have g: "analyzeGeometry ps b = Inr \<lparr>camber = Undefined, maxCamber = Some 0, thickness = 0,
                               isSymmetric = True, teAngle = 180, leRadius = 0\<rparr>"
    using assms(2) by (rule analyzeGeometry_degenerate)
  have run: "calculateDrag ps prm = (case ?n of None \<Rightarrow> None | Some a \<Rightarrow> Some (Inl TypeError))"
  proof (cases ?n)
    case None
    then show ?thesis by (simp add: calculateDrag_hangs)
  next
    case (Some a)
    obtain rb where rb: "getBoundingBox (rotatePoints ps a) = Some rb"
      using getBoundingBox_rotate_Some [OF ne] by blast
    show ?thesis
      by (simp add: calculateDrag_def Let_def Some rb assms(1) g)
  qed
  have "calculateDrag ps prm = Some (Inl TypeError)"
    if "case angle prm of None \<Rightarrow> True | Some a \<Rightarrow> exactAngle a"
    using normalizeAngle_returns [OF that] run by auto
  with g run show ?thesis by simp
qed

theorem degenerate_chord_throws_witness:
  "getBoundingBox [(50, 0), (50, 100), (50, 50)]
     = Some \<lparr>width = 0, height = 100, minX = 50, maxX = 50, minY = 0, maxY = 100\<rparr>
   \<and> analyzeGeometry [(50, 0), (50, 100), (50, 50)]
        \<lparr>width = 0, height = 100, minX = 50, maxX = 50, minY = 0, maxY = 100\<rparr>
      = Inr \<lparr>camber = Undefined, maxCamber = Some 0, thickness = 0,
              isSymmetric = True, teAngle = 180, leRadius = 0\<rparr>
   \<and> calculateDrag [(50, 0), (50, 100), (50, 50)]
        \<lparr>windSpeed = Some 50, angle = Some 0, airDensity = Some 1.225\<rparr>
      = Some (Inl TypeError)"
proof -
  let ?prm = "\<lparr>windSpeed = Some 50, angle = Some 0, airDensity = Some 1.225\<rparr>"
  let ?box = "\<lparr>width = 0, height = 100, minX = 50, maxX = 50, minY = 0, maxY = 100\<rparr>"
  have box: "getBoundingBox [(50, 0), (50, 100), (50, 50)] = Some ?box"
    by (simp add: getBoundingBox_def)
  have chord: "maxX ?box = minX ?box" by simp
  have ang: "case angle ?prm of None \<Rightarrow> True | Some a \<Rightarrow> exactAngle a"
    using exactAngle_int [of 0] by simp
  from degenerate_chord_throws [OF box chord, of ?prm] ang box show ?thesis
    by blast
qed

section \<open>Input handling\<close>

text \<open>
  Claim C10. When \<open>airDensity\<close> is absent or 0, a returned result is computed with
  the density 1.225: its Reynolds number is \<open>1.225 \<sqdot> V \<sqdot> L / \<mu>\<close> and its drag and lift
  forces are \<open>0.5 \<sqdot> 1.225 \<sqdot> V\<^sup>2 \<sqdot> A \<sqdot> C\<close>, with the coefficients taken at that Reynolds
  number (each rounded as the result record rounds it); the whole outcome equals
  that of the request with 1.225 written in. When \<open>angle\<close> is absent or 0 the
  normalised angle is 0 and the outcome equals that of the request with angle 0.
  The input is not rejected: whenever the angle loops end (the angle absent, or a
  double below \<open>2\<^sup>5\<^sup>6\<close> in magnitude) a polygon with a nonzero extent in \<open>x\<close> yields
  a result record.
\<close>

theorem falsy_parameters_defaulted:
  "(calculateDrag ps prm = Some (Inr r)
      \<and> (airDensity prm = None \<or> airDensity prm = Some 0) \<longrightarrow>
      (\<exists>a b b0 g.
         normalizeAngle (case angle prm of None \<Rightarrow> 0 | Some x \<Rightarrow> x) = Some a
         \<and> getBoundingBox (rotatePoints ps a) = Some b
         \<and> getBoundingBox ps = Some b0 \<and> analyzeGeometry ps b0 = Inr g
         \<and> (let v = (case windSpeed prm of None \<Rightarrow> NaN | Some w \<Rightarrow> Num (w / 3.6));
                 sol = (if width b * height b > 0
                        then calculatePolygonArea ps / (width b * height b) else 1);
                 ar = (if height b > 0 then width b / height b else 1);
                 len = (if shapeType r = Circular then width b / 100
                        else if shapeType r = Streamlined then width b / 100
                        else sqrt (calculatePolygonArea ps / 10000));
                 re = calculateReynolds v len 1.225 AIR_DYNAMIC_VISCOSITY;
                 q = jstimes (jsmul v (0.5 * 1.225)) v
             in shapeType r = classifyShape ps b sol
              \<and> reynolds r = jsToFixed 0 re
              \<and> dragForce r = jsToFixed 2 (jstimes (jsmul q (height b / 100))
                    (calculateDragCoefficient (shapeType r) re ar sol a None))
              \<and> liftForce r = jsToFixed 2
                    (jstimes (jsmul q (max (height b / 100) (width b / 100)))
                       (calculateLiftCoefficient (shapeType r) re ar a sol (Some g))))))
   \<and> (airDensity prm = None \<or> airDensity prm = Some 0 \<longrightarrow>
        calculateDrag ps prm = calculateDrag ps (prm\<lparr>airDensity := Some 1.225\<rparr>))
   \<and> (angle prm = None \<or> angle prm = Some 0 \<longrightarrow>
        normalizeAngle (case angle prm of None \<Rightarrow> 0 | Some x \<Rightarrow> x) = Some 0
        \<and> calculateDrag ps prm = calculateDrag ps (prm\<lparr>angle := Some 0\<rparr>))
   \<and> ((case angle prm of None \<Rightarrow> True | Some x \<Rightarrow> exactAngle x)
        \<and> getBoundingBox ps = Some bx \<and> maxX bx \<noteq> minX bx \<longrightarrow>
        (\<exists>res. calculateDrag ps prm = Some (Inr res)))"
proof -
  have density: "\<exists>a b b0 g.
         normalizeAngle (case angle prm of None \<Rightarrow> 0 | Some x \<Rightarrow> x) = Some a
         \<and> getBoundingBox (rotatePoints ps a) = Some b
         \<and> getBoundingBox ps = Some b0 \<and> analyzeGeometry ps b0 = Inr g
         \<and> (let v = (case windSpeed prm of None \<Rightarrow> NaN | Some w \<Rightarrow> Num (w / 3.6));
                 sol = (if width b * height b > 0
                        then calculatePolygonArea ps / (width b * height b) else 1);
                 ar = (if height b > 0 then width b / height b else 1);
                 len = (if shapeType r = Circular then width b / 100
                        else if shapeType r = Streamlined then width b / 100
                        else sqrt (calculatePolygonArea ps / 10000));
                 re = calculateReynolds v len 1.225 AIR_DYNAMIC_VISCOSITY;
                 q = jstimes (jsmul v (0.5 * 1.225)) v
             in shapeType r = classifyShape ps b sol
              \<and> reynolds r = jsToFixed 0 re
              \<and> dragForce r = jsToFixed 2 (jstimes (jsmul q (height b / 100))
                    (calculateDragCoefficient (shapeType r) re ar sol a None))
              \<and> liftForce r = jsToFixed 2
                    (jstimes (jsmul q (max (height b / 100) (width b / 100)))
                       (calculateLiftCoefficient (shapeType r) re ar a sol (Some g))))"
    if run: "calculateDrag ps prm = Some (Inr r)"
      and falsy: "airDensity prm = None \<or> airDensity prm = Some 0"
  proof -
    have rho: "(case airDensity prm of None \<Rightarrow> 1.225
                                      | Some d \<Rightarrow> if d = 0 then 1.225 else d) = (1.225::real)"
      using falsy by auto
    from calculateDrag_result [OF run] obtain a b b0 g where
      facts: "normalizeAngle (case angle prm of None \<Rightarrow> 0 | Some x \<Rightarrow> x) = Some a"
        "getBoundingBox (rotatePoints ps a) = Some b"
        "getBoundingBox ps = Some b0" "analyzeGeometry ps b0 = Inr g"
      and fields: "let rho = (case airDensity prm of None \<Rightarrow> 1.225
                                          | Some d \<Rightarrow> if d = 0 then 1.225 else d);
              v = (case windSpeed prm of None \<Rightarrow> NaN | Some w \<Rightarrow> Num (w / 3.6));
              sol = (if width b * height b > 0
                     then calculatePolygonArea ps / (width b * height b) else 1);
              ar = (if height b > 0 then width b / height b else 1);
              len = (if shapeType r = Circular then width b / 100
                     else if shapeType r = Streamlined then width b / 100
                     else sqrt (calculatePolygonArea ps / 10000));
              re = calculateReynolds v len rho AIR_DYNAMIC_VISCOSITY;
              q = jstimes (jsmul v (0.5 * rho)) v
          in shapeType r = classifyShape ps b sol
           \<and> debug_solidity r = toFixed 3 sol
           \<and> debug_aspectRatio r = toFixed 3 ar
           \<and> reynolds r = jsToFixed 0 re
           \<and> cd r = jsToFixed 3 (calculateDragCoefficient (shapeType r) re ar sol a None)
           \<and> dragForce r = jsToFixed 2 (jstimes (jsmul q (height b / 100))
                 (calculateDragCoefficient (shapeType r) re ar sol a None))
           \<and> liftForce r = jsToFixed 2 (jstimes (jsmul q (max (height b / 100) (width b / 100)))
                 (calculateLiftCoefficient (shapeType r) re ar a sol (Some g)))"
      by blast
    have "let v = (case windSpeed prm of None \<Rightarrow> NaN | Some w \<Rightarrow> Num (w / 3.6));
                 sol = (if width b * height b > 0
                        then calculatePolygonArea ps / (width b * height b) else 1);
                 ar = (if height b > 0 then width b / height b else 1);
                 len = (if shapeType r = Circular then width b / 100
                        else if shapeType r = Streamlined then width b / 100
                        else sqrt (calculatePolygonArea ps / 10000));
                 re = calculateReynolds v len 1.225 AIR_DYNAMIC_VISCOSITY;
                 q = jstimes (jsmul v (0.5 * 1.225)) v
             in shapeType r = classifyShape ps b sol
              \<and> reynolds r = jsToFixed 0 re
              \<and> dragForce r = jsToFixed 2 (jstimes (jsmul q (height b / 100))
                    (calculateDragCoefficient (shapeType r) re ar sol a None))
              \<and> liftForce r = jsToFixed 2
                    (jstimes (jsmul q (max (height b / 100) (width b / 100)))
                       (calculateLiftCoefficient (shapeType r) re ar a sol (Some g)))"
      using fields unfolding rho by (simp add: Let_def split del: if_split cong: if_cong)
    with facts show ?thesis by blast
  qed
  have same_density: "calculateDrag ps prm = calculateDrag ps (prm\<lparr>airDensity := Some 1.225\<rparr>)"
    if "airDensity prm = None \<or> airDensity prm = Some 0"
    using that by (auto simp: calculateDrag_def)
  have same_angle: "normalizeAngle (case angle prm of None \<Rightarrow> 0 | Some x \<Rightarrow> x) = Some 0
        \<and> calculateDrag ps prm = calculateDrag ps (prm\<lparr>angle := Some 0\<rparr>)"
    if "angle prm = None \<or> angle prm = Some 0"
    using that by (auto simp: calculateDrag_def normalizeAngle_fixed)
  have returns: "\<exists>res. calculateDrag ps prm = Some (Inr res)"
    if "case angle prm of None \<Rightarrow> True | Some x \<Rightarrow> exactAngle x"
      "getBoundingBox ps = Some bx" "maxX bx \<noteq> minX bx"
  proof -
    from normalizeAngle_returns [OF that(1)] obtain a' where
      "normalizeAngle (case angle prm of None \<Rightarrow> 0 | Some a \<Rightarrow> a) = Some a'" by blast
    from calculateDrag_returns [OF that(2,3) this] show ?thesis .
  qed
  from density same_density same_angle returns show ?thesis by blast
qed

theorem falsy_parameters_defaulted_witness:
  "\<exists>r. calculateDrag [(0, 0), (100, 0), (100, 100), (0, 100)]
          \<lparr>windSpeed = Some 50, angle = None, airDensity = None\<rparr> = Some (Inr r)
       \<and> shapeType r = Rectangular
       \<and> reynolds r = Num 939994
       \<and> dragForce r = Num 236.3"
proof -
  let ?ps = "[(0, 0), (100, 0), (100, 100), (0, 100)] :: point list"
  let ?prm = "\<lparr>windSpeed = Some 50, angle = None, airDensity = None\<rparr>"
  let ?box = "\<lparr>width = 100, height = 100, minX = 0, maxX = (100::real), minY = 0,
                maxY = 100\<rparr>"
  note inst = falsy_parameters_defaulted [of ?ps ?prm _ ?box]
  have box: "getBoundingBox ?ps = Some ?box"
    by (simp add: getBoundingBox_def)
  have rot: "rotatePoints ?ps 0 = ?ps"
    by (simp add: rotatePoints_def getCentroid_def)
  have area: "calculatePolygonArea ?ps = 10000"
    by (simp add: calculatePolygonArea_def shoelaceSum_def upt_rec)
  have cls: "classifyShape ?ps ?box 1 = Rectangular"
    by (simp add: classifyShape_def jsdiv_def)
  have "(case angle ?prm of None \<Rightarrow> True | Some x \<Rightarrow> exactAngle x)
        \<and> getBoundingBox ?ps = Some ?box \<and> maxX ?box \<noteq> minX ?box"
    using box by simp
  with inst obtain r where r: "calculateDrag ?ps ?prm = Some (Inr r)" by blast
  have "airDensity ?prm = None \<or> airDensity ?prm = Some 0" by simp
  with inst [of r] r obtain a b where
    a: "normalizeAngle (case angle ?prm of None \<Rightarrow> 0 | Some x \<Rightarrow> x) = Some a"
    and b: "getBoundingBox (rotatePoints ?ps a) = Some b"
    and fields: "let v = (case windSpeed ?prm of None \<Rightarrow> NaN | Some w \<Rightarrow> Num (w / 3.6));
                 sol = (if width b * height b > 0
                        then calculatePolygonArea ?ps / (width b * height b) else 1);
                 ar = (if height b > 0 then width b / height b else 1);
                 len = (if shapeType r = Circular then width b / 100
                        else if shapeType r = Streamlined then width b / 100
                        else sqrt (calculatePolygonArea ?ps / 10000));
                 re = calculateReynolds v len 1.225 AIR_DYNAMIC_VISCOSITY;
                 q = jstimes (jsmul v (0.5 * 1.225)) v
             in shapeType r = classifyShape ?ps b sol
              \<and> reynolds r = jsToFixed 0 re
              \<and> dragForce r = jsToFixed 2 (jstimes (jsmul q (height b / 100))
                    (calculateDragCoefficient (shapeType r) re ar sol a None))"
    by (auto simp: Let_def)
  from a have a0: "a = 0" by (simp add: normalizeAngle_fixed)
  from b have b0: "b = ?box" by (simp add: a0 rot box)
  have shape: "shapeType r = Rectangular"
    using fields by (simp add: Let_def b0 area cls)
  have "reynolds r = Num 939994 \<and> dragForce r = Num 236.3"
    using fields
    by (simp add: Let_def shape b0 a0 area calculateReynolds_def AIR_DYNAMIC_VISCOSITY_def
          jsdiv_def calculateDragCoefficient_def dragRectangular_def finenessRatio_def
          toFixed_def)
  with r shape show ?thesis by blast
qed

text \<open>
  Claim C4, amended. The route answers with the structured error of status 400
  exactly when \<open>shape\<close>, \<open>shape.points\<close> or \<open>parameters\<close> is absent from the request.
  Neither the number of points nor the numeric parameters are checked: for every
  point list with a nonzero extent in \<open>x\<close>, of any length, and every parameter record
  whose angle is absent or a double below \<open>2\<^sup>5\<^sup>6\<close> in magnitude (with or without
  \<open>windSpeed\<close> and \<open>airDensity\<close>) the route answers with a result record.
\<close>

theorem simulate_validation:
  "(simulate body = Some BadRequest \<longleftrightarrow>
      (case shape body of None \<Rightarrow> True | Some sh \<Rightarrow> points sh = None)
      \<or> parameters body = None)
   \<and> (shape body = Some sh \<and> points sh = Some ps \<and> parameters body = Some prm
        \<and> getBoundingBox ps = Some b \<and> maxX b \<noteq> minX b
        \<and> (case angle prm of None \<Rightarrow> True | Some a \<Rightarrow> exactAngle a) \<longrightarrow>
      (\<exists>r. simulate body = Some (Json r)))"
proof -
  have "simulate body = Some BadRequest \<longleftrightarrow>
      (case shape body of None \<Rightarrow> True | Some sh \<Rightarrow> points sh = None)
      \<or> parameters body = None"
    by (auto simp: simulate_def split: option.splits sum.splits)
  moreover have "\<exists>r. simulate body = Some (Json r)"
    if "shape body = Some sh" "points sh = Some ps" "parameters body = Some prm"
      "getBoundingBox ps = Some b" "maxX b \<noteq> minX b"
      "case angle prm of None \<Rightarrow> True | Some a \<Rightarrow> exactAngle a"
  proof -
    from normalizeAngle_returns [OF that(6)] obtain a' where
      "normalizeAngle (case angle prm of None \<Rightarrow> 0 | Some a \<Rightarrow> a) = Some a'" by blast
    from calculateDrag_returns [OF that(4,5) this] that(1-3) show ?thesis
      by (auto simp: simulate_def)
  qed
  ultimately show ?thesis by blast
qed

theorem simulate_validation_witness:
  "(simulate \<lparr>shape = Some \<lparr>points = None\<rparr>,
             parameters = Some \<lparr>windSpeed = Some 50, angle = Some 0,
                                  airDensity = Some 1.225\<rparr>\<rparr>
      = Some BadRequest)
   \<and> (\<exists>r. simulate \<lparr>shape = Some \<lparr>points = Some [(0, 0), (100, 100)]\<rparr>,
                    parameters = Some \<lparr>windSpeed = None, angle = None,
                                         airDensity = None\<rparr>\<rparr>
          = Some (Json r))"
proof -
  let ?box = "\<lparr>width = 100, height = 100, minX = 0, maxX = (100::real), minY = 0,
                maxY = 100\<rparr>"
  let ?prm = "\<lparr>windSpeed = None, angle = None, airDensity = None\<rparr>"
  let ?sh = "\<lparr>points = Some [(0, 0), (100, 100)]\<rparr>"
  let ?body = "\<lparr>shape = Some ?sh, parameters = Some ?prm\<rparr>"
  have box: "getBoundingBox [(0, 0), (100, 100)] = Some ?box"
    by (simp add: getBoundingBox_def)
  have "simulate \<lparr>shape = Some \<lparr>points = None\<rparr>,
             parameters = Some \<lparr>windSpeed = Some 50, angle = Some 0,
                                  airDensity = Some 1.225\<rparr>\<rparr>
      = Some BadRequest"
    using simulate_validation
      [of "\<lparr>shape = Some \<lparr>points = None\<rparr>,
            parameters = Some \<lparr>windSpeed = Some 50, angle = Some 0,
                                 airDensity = Some 1.225\<rparr>\<rparr>"]
    by simp
  moreover have "shape ?body = Some ?sh \<and> points ?sh = Some [(0, 0), (100, 100)]
        \<and> parameters ?body = Some ?prm
        \<and> getBoundingBox [(0, 0), (100, 100)] = Some ?box \<and> maxX ?box \<noteq> minX ?box
        \<and> (case angle ?prm of None \<Rightarrow> True | Some a \<Rightarrow> exactAngle a)"
    using box by simp
  then have "\<exists>r. simulate ?body = Some (Json r)"
    using simulate_validation [of ?body ?sh "[(0, 0), (100, 100)]" ?prm ?box]
    by blast
  ultimately show ?thesis by blast
qed

text \<open>
  A request with a two-point polygon and empty parameters is answered with a
  result record, whose Reynolds number and drag force are NaN.
\<close>

theorem simulate_two_points_accepted:
  "map_option (\<lambda>resp. case resp of
        Json r \<Rightarrow> Some (reynolds r, dragForce r) | BadRequest \<Rightarrow> None | ServerError \<Rightarrow> None)
     (simulate \<lparr>shape = Some \<lparr>points = Some [(0, 0), (100, 100)]\<rparr>,
                parameters = Some \<lparr>windSpeed = None, angle = None, airDensity = None\<rparr>\<rparr>)
     = Some (Some (NaN, NaN))"
proof -
  let ?prm = "\<lparr>windSpeed = None, angle = None, airDensity = None\<rparr>"
  have box: "getBoundingBox [(0, 0), (100, 100)]
     = Some \<lparr>width = 100, height = 100, minX = 0, maxX = 100, minY = 0, maxY = 100\<rparr>"
    by (simp add: getBoundingBox_def)
  have ang: "normalizeAngle (case angle ?prm of None \<Rightarrow> 0 | Some a \<Rightarrow> a) = Some 0"
    by (simp add: normalizeAngle_fixed)
  obtain r where r: "calculateDrag [(0, 0), (100, 100)] ?prm = Some (Inr r)"
    using calculateDrag_returns [OF box _ ang] by auto
  have "reynolds r = NaN \<and> dragForce r = NaN"
    using calculateDrag_result [OF r]
    by (auto simp: Let_def calculateReynolds_def)
  then show ?thesis
    by (simp add: simulate_def r)
qed

section \<open>Which bounding box the solver uses\<close>

lemma calculateDrag_fields:
  assumes "calculateDrag ps prm = Some (Inr r)"
  shows "\<exists>a b. normalizeAngle (case angle prm of None \<Rightarrow> 0 | Some x \<Rightarrow> x) = Some a
           \<and> getBoundingBox (rotatePoints ps a) = Some b
           \<and> shapeType r = classifyShape ps b
                (if width b * height b > 0
                 then calculatePolygonArea ps / (width b * height b) else 1)
           \<and> debug_solidity r = toFixed 3
                (if width b * height b > 0
                 then calculatePolygonArea ps / (width b * height b) else 1)
           \<and> debug_aspectRatio r = toFixed 3
                (if height b > 0 then width b / height b else 1)"
  using calculateDrag_result [OF assms]
  by (auto simp: Let_def split del: if_split cong: if_cong)

text \<open>
  Claim C1, amended. Whenever the solve operation returns a result, the polygon
  rotated by the normalised angle has a bounding box, and the operation takes
  solidity as \<open>polygonArea\<close> (of the input polygon) divided by the area of that
  rotated box (1 when the area is not positive), aspect ratio as the rotated box's
  width divided by its height (1 when the height is not positive), and classifies
  the shape with the rotated box and that solidity. Solidity and aspect ratio are
  read from the debug record, rounded to three decimals.
\<close>

theorem solve_uses_rotated_box:
  assumes "calculateDrag ps prm = Some (Inr r)"
  shows "\<exists>a b. normalizeAngle (case angle prm of None \<Rightarrow> 0 | Some x \<Rightarrow> x) = Some a
           \<and> getBoundingBox (rotatePoints ps a) = Some b
           \<and> shapeType r = classifyShape ps b
                (if width b * height b > 0
                 then calculatePolygonArea ps / (width b * height b) else 1)
           \<and> debug_solidity r = toFixed 3
                (if width b * height b > 0
                 then calculatePolygonArea ps / (width b * height b) else 1)
           \<and> debug_aspectRatio r = toFixed 3
                (if height b > 0 then width b / height b else 1)"
  using assms by (rule calculateDrag_fields)

lemma box_rectangle:
  "getBoundingBox [(0, 0), (200, 0), (200, 100), (0, 100)]
     = Some \<lparr>width = 200, height = 100, minX = 0, maxX = 200, minY = 0, maxY = 100\<rparr>"
  by (simp add: getBoundingBox_def)

lemma rectangle_45_returns:
  "\<exists>r. calculateDrag [(0, 0), (200, 0), (200, 100), (0, 100)]
          \<lparr>windSpeed = Some 50, angle = Some 45, airDensity = Some 1.225\<rparr> = Some (Inr r)"
proof -
  have "normalizeAngle (case angle \<lparr>windSpeed = Some 50, angle = Some 45,
                                      airDensity = Some 1.225\<rparr>
                        of None \<Rightarrow> 0 | Some a \<Rightarrow> a) = Some 45"
    by (simp add: normalizeAngle_fixed)
  from calculateDrag_returns [OF box_rectangle _ this] show ?thesis by simp
qed

theorem solve_uses_rotated_box_witness:
  "\<exists>r. calculateDrag [(0, 0), (200, 0), (200, 100), (0, 100)]
          \<lparr>windSpeed = Some 50, angle = Some 45, airDensity = Some 1.225\<rparr> = Some (Inr r)
     \<and> (\<exists>a b. normalizeAngle (case angle \<lparr>windSpeed = Some 50, angle = Some 45,
                                            airDensity = Some 1.225\<rparr>
                                of None \<Rightarrow> 0 | Some x \<Rightarrow> x) = Some a
           \<and> getBoundingBox (rotatePoints [(0, 0), (200, 0), (200, 100), (0, 100)] a) = Some b
           \<and> shapeType r = classifyShape [(0, 0), (200, 0), (200, 100), (0, 100)] b
                (if width b * height b > 0
                 then calculatePolygonArea [(0, 0), (200, 0), (200, 100), (0, 100)]
                        / (width b * height b) else 1)
           \<and> debug_solidity r = toFixed 3
                (if width b * height b > 0
                 then calculatePolygonArea [(0, 0), (200, 0), (200, 100), (0, 100)]
                        / (width b * height b) else 1)
           \<and> debug_aspectRatio r = toFixed 3
                (if height b > 0 then width b / height b else 1))"
proof -
  obtain r where r: "calculateDrag [(0, 0), (200, 0), (200, 100), (0, 100)]
          \<lparr>windSpeed = Some 50, angle = Some 45, airDensity = Some 1.225\<rparr> = Some (Inr r)"
    using rectangle_45_returns by blast
  show ?thesis
    using solve_uses_rotated_box [OF r] r by blast
qed

text \<open>
  The rectangle of 200 by 100 pixels at 45 degrees. Its rotated box is a square of
  side \<open>150 \<surd>2\<close>: the solver reports the class bluff, solidity 0.444 and aspect ratio
  1, where the unrotated box gives rectangular, 1 and 2.
\<close>

lemma rotate_rectangle_45:
  "rotatePoints [(0, 0), (200, 0), (200, 100), (0, 100)] 45 =
   [(100 - 25 * sqrt 2, 50 - 75 * sqrt 2), (100 + 75 * sqrt 2, 50 + 25 * sqrt 2),
    (100 + 25 * sqrt 2, 50 + 75 * sqrt 2), (100 - 75 * sqrt 2, 50 - 25 * sqrt 2)]"
proof -
  have centroid: "getCentroid [(0, 0), (200, 0), (200, 100), (0, 100)] = (100, 50)"
    by (simp add: getCentroid_def)
  have trig: "cos ((45 * pi) / 180) = sqrt 2 / 2" "sin ((45 * pi) / 180) = sqrt 2 / 2"
    by (simp_all add: cos_45 sin_45)
  show ?thesis
    unfolding rotatePoints_def Let_def centroid trig by simp
qed

lemma box_of_diamond:
  fixes s :: real
  assumes "0 < s"
  shows "getBoundingBox
     [(100 - 25 * s, 50 - 75 * s), (100 + 75 * s, 50 + 25 * s),
      (100 + 25 * s, 50 + 75 * s), (100 - 75 * s, 50 - 25 * s)]
   = Some \<lparr>width = 150 * s, height = 150 * s,
         minX = 100 - 75 * s, maxX = 100 + 75 * s,
         minY = 50 - 75 * s, maxY = 50 + 75 * s\<rparr>"
  using assms by (simp add: getBoundingBox_def)

lemma box_rectangle_45:
  "getBoundingBox (rotatePoints [(0, 0), (200, 0), (200, 100), (0, 100)] 45) =
   Some \<lparr>width = 150 * sqrt 2, height = 150 * sqrt 2,
         minX = 100 - 75 * sqrt 2, maxX = 100 + 75 * sqrt 2,
         minY = 50 - 75 * sqrt 2, maxY = 50 + 75 * sqrt 2\<rparr>"
  unfolding rotate_rectangle_45 by (rule box_of_diamond) simp

lemma area_rectangle: "calculatePolygonArea [(0, 0), (200, 0), (200, 100), (0, 100)] = 20000"
  by (simp add: calculatePolygonArea_def shoelaceSum_def upt_rec)

theorem solve_rotated_box_counterexample:
  "map_option (map_sum id (\<lambda>r. (shapeType r, debug_solidity r, debug_aspectRatio r)))
     (calculateDrag [(0, 0), (200, 0), (200, 100), (0, 100)]
        \<lparr>windSpeed = Some 50, angle = Some 45, airDensity = Some 1.225\<rparr>)
     = Some (Inr (Bluff, 0.444, 1))
   \<and> map_option (\<lambda>b.
        (classifyShape [(0, 0), (200, 0), (200, 100), (0, 100)] b
           (calculatePolygonArea [(0, 0), (200, 0), (200, 100), (0, 100)]
              / (width b * height b)),
         toFixed 3 (calculatePolygonArea [(0, 0), (200, 0), (200, 100), (0, 100)]
              / (width b * height b)),
         toFixed 3 (width b / height b)))
       (getBoundingBox [(0, 0), (200, 0), (200, 100), (0, 100)])
     = Some (Rectangular, 1, 2)"
proof -
  let ?ps = "[(0, 0), (200, 0), (200, 100), (0, 100)] :: point list"
  let ?prm = "\<lparr>windSpeed = Some 50, angle = Some 45, airDensity = Some 1.225\<rparr>"
  obtain r where r: "calculateDrag ?ps ?prm = Some (Inr r)"
    using rectangle_45_returns by blast
  have sq: "150 * sqrt 2 * (150 * sqrt 2) = (45000::real)"
    by simp
  have "shapeType r = Bluff \<and> debug_solidity r = 0.444 \<and> debug_aspectRatio r = 1"
    using calculateDrag_fields [OF r]
    by (simp add: normalizeAngle_fixed box_rectangle_45 area_rectangle sq
          classifyShape_def jsdiv_def toFixed_def)
  then have solver: "map_option (map_sum id
       (\<lambda>r. (shapeType r, debug_solidity r, debug_aspectRatio r)))
     (calculateDrag ?ps ?prm) = Some (Inr (Bluff, 0.444, 1))"
    unfolding r by simp
  have "classifyShape ?ps
       \<lparr>width = 200, height = 100, minX = 0, maxX = 200, minY = 0, maxY = 100\<rparr> 1
     = Rectangular"
    by (simp add: classifyShape_def jsdiv_def)
  then have claimed: "map_option (\<lambda>b.
        (classifyShape ?ps b (calculatePolygonArea ?ps / (width b * height b)),
         toFixed 3 (calculatePolygonArea ?ps / (width b * height b)),
         toFixed 3 (width b / height b)))
       (getBoundingBox ?ps)
     = Some (Rectangular, 1, 2)"
    by (simp add: box_rectangle area_rectangle toFixed_def)
  from solver claimed show ?thesis by (rule conjI)
qed

section \<open>The drag model inside the solver\<close>

text \<open>
  Claim C2. For a streamlined polygon the claim expects the solver's drag
  coefficient to carry the symmetry bonus and the trailing-edge penalty of the
  analysed geometry. \<open>calculateDrag\<close> calls the drag model without the geometry, so
  neither is ever applied. On the five-point polygon below, at angle 0, the
  analysis finds a trailing-edge angle of 90 degrees; the drag model given that
  geometry returns 0.3, and the solver returns 0.2.
\<close>

theorem solver_drag_ignores_geometry:
  "map_option (map_sum id (\<lambda>r. (shapeType r, cd r)))
     (calculateDrag [(0, 0), (400, 0), (400, 100), (0, 100), (0, 50)]
        \<lparr>windSpeed = Some 50, angle = Some 0, airDensity = Some 1.225\<rparr>)
     = Some (Inr (Streamlined, Num 0.2))
   \<and> getBoundingBox [(0, 0), (400, 0), (400, 100), (0, 100), (0, 50)]
     = Some \<lparr>width = 400, height = 100, minX = 0, maxX = 400, minY = 0, maxY = 100\<rparr>
   \<and> analyzeGeometry [(0, 0), (400, 0), (400, 100), (0, 100), (0, 50)]
        \<lparr>width = 400, height = 100, minX = 0, maxX = 400, minY = 0, maxY = 100\<rparr>
     = Inr \<lparr>camber = Finite (- 0.125), maxCamber = None, thickness = 0.25,
             isSymmetric = False, teAngle = 90, leRadius = sqrt 162500 / 800\<rparr>
   \<and> calculateDragCoefficient Streamlined re 4 1 0
        (Some \<lparr>camber = Finite (- 0.125), maxCamber = None, thickness = 0.25,
                isSymmetric = False, teAngle = 90, leRadius = sqrt 162500 / 800\<rparr>)
     = Num 0.3"
proof -
  let ?ps = "[(0, 0), (400, 0), (400, 100), (0, 100), (0, 50)] :: point list"
  let ?box = "\<lparr>width = 400, height = 100, minX = 0, maxX = (400::real), minY = 0,
                maxY = 100\<rparr>"
  have rot: "rotatePoints ?ps 0 = ?ps"
    by (simp add: rotatePoints_def getCentroid_def)
  have box: "getBoundingBox ?ps = Some ?box"
    by (simp add: getBoundingBox_def)
  have area: "calculatePolygonArea ?ps = 40000"
    by (simp add: calculatePolygonArea_def shoelaceSum_def upt_rec)
  have geo: "analyzeGeometry ?ps ?box
     = Inr \<lparr>camber = Finite (- 0.125), maxCamber = None, thickness = 0.25,
             isSymmetric = False, teAngle = 90, leRadius = sqrt 162500 / 800\<rparr>"
    by (simp add: analyzeGeometry_def nearestPoint_def Let_def projectStep_def atan2_def)
  have cls: "classifyShape ?ps ?box 1 = Streamlined"
    by (simp add: classifyShape_def jsdiv_def)
  have bare: "calculateDragCoefficient Streamlined x 4 1 0 None = Num 0.2" for x
    by (simp add: calculateDragCoefficient_def dragStreamlined_def finenessRatio_def jsdiv_def)
  have full: "calculateDragCoefficient Streamlined re 4 1 0
        (Some \<lparr>camber = Finite (- 0.125), maxCamber = None, thickness = 0.25,
                isSymmetric = False, teAngle = 90, leRadius = sqrt 162500 / 800\<rparr>)
     = Num 0.3"
    by (simp add: calculateDragCoefficient_def dragStreamlined_def finenessRatio_def jsdiv_def)
  have "map_option (map_sum id (\<lambda>r. (shapeType r, cd r)))
     (calculateDrag ?ps \<lparr>windSpeed = Some 50, angle = Some 0, airDensity = Some 1.225\<rparr>)
     = Some (Inr (Streamlined, Num 0.2))"
    by (simp add: calculateDrag_def Let_def normalizeAngle_fixed rot box area geo cls bare
          toFixed_def)
  with box geo full show ?thesis by simp
qed

end
